theory Spec2Isabelle
  imports Complex_Main
begin

section \<open>Values, arrays and errors\<close>

text \<open>
  The program of \<^verbatim>\<open>model_fit_exp3.py\<close> works on numpy arrays of float64. A value is
  modelled as a real number or one of the three special values of IEEE arithmetic; the
  rounding of finite results and the sign of zero are left out. What the properties below
  need of floating point is kept: \<^verbatim>\<open>1/0.0\<close> is \<^verbatim>\<open>inf\<close> (numpy warns, it
  does not raise), \<^verbatim>\<open>0*inf\<close> and \<^verbatim>\<open>inf-inf\<close> are \<^verbatim>\<open>nan\<close>, and every
  comparison with \<^verbatim>\<open>nan\<close> is false.
\<close>

datatype fl = Fin real | PInf | NInf | NaN

fun fneg :: "fl \<Rightarrow> fl" where
  "fneg (Fin x) = Fin (- x)"
| "fneg PInf = NInf"
| "fneg NInf = PInf"
| "fneg NaN = NaN"

fun fabs :: "fl \<Rightarrow> fl" where
  "fabs (Fin x) = Fin \<bar>x\<bar>"
| "fabs PInf = PInf"
| "fabs NInf = PInf"
| "fabs NaN = NaN"

fun fadd :: "fl \<Rightarrow> fl \<Rightarrow> fl" where
  "fadd NaN b = NaN"
| "fadd a NaN = NaN"
| "fadd (Fin x) (Fin y) = Fin (x + y)"
| "fadd PInf NInf = NaN"
| "fadd NInf PInf = NaN"
| "fadd PInf b = PInf"
| "fadd NInf b = NInf"
| "fadd a PInf = PInf"
| "fadd a NInf = NInf"

definition fsub :: "fl \<Rightarrow> fl \<Rightarrow> fl" where
  "fsub a b = fadd a (fneg b)"

fun fmul :: "fl \<Rightarrow> fl \<Rightarrow> fl" where
  "fmul NaN b = NaN"
| "fmul a NaN = NaN"
| "fmul (Fin x) (Fin y) = Fin (x * y)"
| "fmul (Fin x) PInf = (if x = 0 then NaN else if 0 < x then PInf else NInf)"
| "fmul (Fin x) NInf = (if x = 0 then NaN else if 0 < x then NInf else PInf)"
| "fmul PInf (Fin y) = (if y = 0 then NaN else if 0 < y then PInf else NInf)"
| "fmul NInf (Fin y) = (if y = 0 then NaN else if 0 < y then NInf else PInf)"
| "fmul PInf PInf = PInf"
| "fmul PInf NInf = NInf"
| "fmul NInf PInf = NInf"
| "fmul NInf NInf = PInf"

text \<open>\<^verbatim>\<open>1/s\<close>, elementwise: no exception at zero.\<close>

fun frecip :: "fl \<Rightarrow> fl" where
  "frecip (Fin x) = (if x = 0 then PInf else Fin (1 / x))"
| "frecip PInf = Fin 0"
| "frecip NInf = Fin 0"
| "frecip NaN = NaN"

text \<open>Python's \<^verbatim>\<open>a > b\<close> on floats.\<close>

fun fgt :: "fl \<Rightarrow> fl \<Rightarrow> bool" where
  "fgt NaN b = False"
| "fgt a NaN = False"
| "fgt (Fin x) (Fin y) = (y < x)"
| "fgt PInf PInf = False"
| "fgt PInf b = True"
| "fgt a PInf = False"
| "fgt NInf b = False"
| "fgt a NInf = True"

type_synonym vec = "fl list"

text \<open>
  A 2-D array is the list of its rows. An array with no row carries no column count; the
  theorems below are about arrays with at least one row.
\<close>

type_synonym mat = "fl list list"

datatype error = IndexError | ValueError | LibraryError

type_synonym flight_condition = "(string \<times> real) list"

text \<open>
  What the program prints and plots, in order. A \<^verbatim>\<open>print\<close> of a label and an array
  is one event holding both; \<open>PrintStd\<close> holds the vector whose standard deviation is
  printed.
\<close>

datatype event =
    Print string
  | PrintNames "string list"
  | PrintMat string mat
  | PrintVec string vec
  | PrintInt string int
  | PrintBool string bool
  | PrintShape nat nat
  | PrintMax int string
  | PrintStd vec
  | PrintScore fl string
  | PrintCond nat flight_condition
  | Plot vec vec

text \<open>
  A computation prints some events and then either raises or returns: the events printed
  before an exception stay printed.
\<close>

type_synonym 'a res = "event list \<times> (error + 'a)"

definition ret :: "'a \<Rightarrow> 'a res" where
  "ret x = ([], Inr x)"

definition emit :: "event list \<Rightarrow> unit res" where
  "emit out = (out, Inr ())"

definition lift :: "error + 'a \<Rightarrow> 'a res" where
  "lift r = ([], r)"

definition bind_res :: "'a res \<Rightarrow> ('a \<Rightarrow> 'b res) \<Rightarrow> 'b res" where
  "bind_res m f =
     (case m of
        (out, Inl e) \<Rightarrow> (out, Inl e)
      | (out, Inr x) \<Rightarrow> (case f x of (out', r) \<Rightarrow> (out @ out', r)))"

subsection \<open>Indexing\<close>

text \<open>
  \<^verbatim>\<open>xs[i]\<close> for an integer \<open>i\<close>, on a list or along the first axis of an array
  of length \<open>n\<close>: the valid indices are \<open>-n\<close> to \<open>n - 1\<close>, and \<open>-k\<close> reads the
  position \<open>n - k\<close>.
\<close>

definition py_index :: "'a list \<Rightarrow> int \<Rightarrow> error + 'a" where
  "py_index xs i =
     (if 0 \<le> i \<and> i < int (length xs) then Inr (xs ! nat i)
      else if i < 0 \<and> - int (length xs) \<le> i then Inr (xs ! nat (int (length xs) + i))
      else Inl IndexError)"

text \<open>\<^verbatim>\<open>xs.index(x)\<close>: the first position of \<open>x\<close>, ValueError when absent.\<close>

fun list_index :: "'a list \<Rightarrow> 'a \<Rightarrow> error + nat" where
  "list_index [] x = Inl ValueError"
| "list_index (y # ys) x =
     (if y = x then Inr 0
      else case list_index ys x of Inl e \<Rightarrow> Inl e | Inr k \<Rightarrow> Inr (Suc k))"

text \<open>The first error of a list of results, or all the values.\<close>

fun collect :: "(error + 'a) list \<Rightarrow> error + 'a list" where
  "collect [] = Inr []"
| "collect (r # rs) =
     (case r of
        Inl e \<Rightarrow> Inl e
      | Inr x \<Rightarrow> (case collect rs of Inl e \<Rightarrow> Inl e | Inr xs \<Rightarrow> Inr (x # xs)))"

text \<open>\<^verbatim>\<open>a[idx, :]\<close> with a list of row indices.\<close>

definition take_rows :: "mat \<Rightarrow> int list \<Rightarrow> error + mat" where
  "take_rows a idx = collect (map (py_index a) idx)"

subsection \<open>Array arithmetic\<close>

definition ncols :: "mat \<Rightarrow> nat" where
  "ncols a = (case a of [] \<Rightarrow> 0 | r # _ \<Rightarrow> length r)"

definition col :: "nat \<Rightarrow> mat \<Rightarrow> vec" where
  "col j a = map (\<lambda>r. r ! j) a"

text \<open>\<^verbatim>\<open>a.T\<close> of a rectangular array.\<close>

definition mat_T :: "mat \<Rightarrow> mat" where
  "mat_T a = map (\<lambda>j. col j a) [0..<ncols a]"

definition dot :: "vec \<Rightarrow> vec \<Rightarrow> fl" where
  "dot v w = foldl fadd (Fin 0) (map2 fmul v w)"

text \<open>\<^verbatim>\<open>v @ a\<close> for a 1-D \<open>v\<close> and a 2-D \<open>a\<close>: a 1-D result.\<close>

definition vecmat :: "vec \<Rightarrow> mat \<Rightarrow> error + vec" where
  "vecmat v a =
     (if length v \<noteq> length a then Inl ValueError
      else Inr (map (\<lambda>j. dot v (col j a)) [0..<ncols a]))"

text \<open>\<^verbatim>\<open>a @ b\<close> for 2-D arrays.\<close>

definition matmul :: "mat \<Rightarrow> mat \<Rightarrow> error + mat" where
  "matmul a b = collect (map (\<lambda>r. vecmat r b) a)"

text \<open>
  Elementwise operations broadcast: two 1-D operands must have the same length unless
  one of them has length 1.
\<close>

definition bcast1 :: "(fl \<Rightarrow> fl \<Rightarrow> 'b) \<Rightarrow> vec \<Rightarrow> vec \<Rightarrow> error + 'b list" where
  "bcast1 f v w =
     (if length v = length w then Inr (map2 f v w)
      else if length w = 1 then Inr (map (\<lambda>x. f x (hd w)) v)
      else if length v = 1 then Inr (map (\<lambda>y. f (hd v) y) w)
      else Inl ValueError)"

text \<open>\<^verbatim>\<open>a * s\<close> for a 2-D \<open>a\<close> and a 1-D \<open>s\<close>: \<open>s\<close> scales the columns.\<close>

definition mul_rows :: "mat \<Rightarrow> vec \<Rightarrow> error + mat" where
  "mul_rows a s = collect (map (\<lambda>r. bcast1 fmul r s) a)"

text \<open>An elementwise operation on two 2-D arrays.\<close>

definition bcast2 :: "(fl \<Rightarrow> fl \<Rightarrow> 'b) \<Rightarrow> mat \<Rightarrow> mat \<Rightarrow> error + 'b list list" where
  "bcast2 f a b =
     (if length a = length b then collect (map2 (bcast1 f) a b)
      else if length b = 1 then collect (map (\<lambda>r. bcast1 f r (hd b)) a)
      else if length a = 1 then collect (map (\<lambda>r. bcast1 f (hd a) r) b)
      else Inl ValueError)"

text \<open>
  \<^verbatim>\<open>np.isclose\<close> with its default tolerances: \<open>|a - b| \<le> atol + rtol * |b|\<close> for
  finite values, equality for infinite ones, never for \<^verbatim>\<open>nan\<close>.
\<close>

fun isclose :: "fl \<Rightarrow> fl \<Rightarrow> bool" where
  "isclose (Fin x) (Fin y) = (\<bar>x - y\<bar> \<le> 1 / 10 ^ 8 + \<bar>y\<bar> / 10 ^ 5)"
| "isclose PInf PInf = True"
| "isclose NInf NInf = True"
| "isclose a b = False"

definition allclose :: "mat \<Rightarrow> mat \<Rightarrow> error + bool" where
  "allclose a b =
     (case bcast2 isclose a b of
        Inl e \<Rightarrow> Inl e
      | Inr c \<Rightarrow> Inr (list_all (list_all (\<lambda>t. t)) c))"

text \<open>
  \<^verbatim>\<open>np.linalg.matrix_rank\<close> of a 1-D array: numpy returns
  \<^verbatim>\<open>int(not all(A == 0))\<close> for an array of fewer than two dimensions.
\<close>

definition matrix_rank :: "vec \<Rightarrow> int" where
  "matrix_rank a = (if list_all (\<lambda>x. x = Fin 0) a then 0 else 1)"

text \<open>\<^verbatim>\<open>np.vstack([a, e])\<close> of a 2-D array and a 1-D array.\<close>

definition vstack :: "mat \<Rightarrow> vec \<Rightarrow> error + mat" where
  "vstack a e = (if list_all (\<lambda>r. length r = length e) a then Inr (a @ [e]) else Inl ValueError)"

section \<open>The least-squares solver\<close>

text \<open>
  \<^verbatim>\<open>da.linalg.svd\<close> and \<^verbatim>\<open>np.corrcoef\<close> are library functions: they are
  parameters of the model. Either may fail.
\<close>

type_synonym svd_fn = "mat \<Rightarrow> error + (mat \<times> vec \<times> mat)"

type_synonym corr_fn = "mat \<Rightarrow> error + mat"

text \<open>
  \<^verbatim>\<open>solve(i, traindata)\<close>, lines 116 to 157. \<open>states\<close> is
  \<^verbatim>\<open>len(traindata[0])\<close>, the length of the first row.
\<close>

definition solve :: "svd_fn \<Rightarrow> int \<Rightarrow> mat \<Rightarrow> vec res" where
  "solve svd i traindata =
     bind_res (lift (py_index traindata 0)) (\<lambda>row0.
     bind_res (lift (py_index traindata i)) (\<lambda>rowi.
     let states = length row0;
         X = map butlast traindata;
         Y = tl rowi
     in
     bind_res (emit [PrintMat ''X:'' X, PrintVec ''Y:'' Y, Print ''dask svd...'']) (\<lambda>_.
     bind_res (lift (svd X)) (\<lambda>(u, s, vh).
     bind_res (emit [PrintMat ''u:'' u, PrintVec ''s:'' s, PrintMat ''vh:'' vh]) (\<lambda>_.
     bind_res (lift (mul_rows u s)) (\<lambda>us.
     bind_res (lift (matmul us (take states vh))) (\<lambda>Xr.
     bind_res (lift (allclose X Xr)) (\<lambda>close.
     bind_res (emit [PrintBool ''dask svd close?'' close]) (\<lambda>_.
     let v = mat_T vh;
         sinv = map frecip s
     in
     bind_res (emit [PrintVec ''s inv:'' sinv]) (\<lambda>_.
     bind_res (lift (mul_rows (map (take states) v) sinv)) (\<lambda>w.
     bind_res (lift (vecmat Y w)) (\<lambda>yw.
     bind_res (lift (vecmat yw (mat_T u))) (\<lambda>A.
     bind_res (emit [PrintInt ''A rank:'' (matrix_rank A), PrintVec ''A:'' A]) (\<lambda>_.
     ret A))))))))))))))"

section \<open>The correlation selector\<close>

text \<open>\<^verbatim>\<open>a[r, c]\<close> on a 2-D array.\<close>

definition index2 :: "mat \<Rightarrow> int \<Rightarrow> int \<Rightarrow> error + fl" where
  "index2 a r c = (case py_index a r of Inl e \<Rightarrow> Inl e | Inr row \<Rightarrow> py_index row c)"

text \<open>
  Lines 190 to 197: the scan for the row, not yet included, that correlates best with
  the error row \<^verbatim>\<open>corr[-1,:]\<close>. The pair is \<open>(max_index, max_abs)\<close>; the scan
  starts from \<open>(-1, 0)\<close>.
\<close>

fun scan :: "mat \<Rightarrow> int set \<Rightarrow> nat list \<Rightarrow> int \<times> fl \<Rightarrow> error + int \<times> fl" where
  "scan corr incl [] best = Inr best"
| "scan corr incl (j # js) best =
     (if int j \<in> incl then scan corr incl js best
      else case index2 corr (- 1) (int j) of
             Inl e \<Rightarrow> Inl e
           | Inr c \<Rightarrow>
               if fgt (fabs c) (snd best) then scan corr incl js (int j, fabs c)
               else scan corr incl js best)"

text \<open>
  Lines 182 to 215: one pass through the body of \<^verbatim>\<open>while True\<close>. The state is the
  included set and the error row. (The set \<^verbatim>\<open>rem\<close> of lines 176 to 179 is never read.)
\<close>

definition iteration ::
  "svd_fn \<Rightarrow> corr_fn \<Rightarrow> string list \<Rightarrow> mat \<Rightarrow> nat \<Rightarrow> int set \<times> vec \<Rightarrow> (mat \<times> int set \<times> vec) res"
where
  "iteration svd corrcoef train_states traindata i st =
     (case st of (incl, error) \<Rightarrow>
     bind_res (lift (vstack traindata error)) (\<lambda>tde.
     bind_res (lift (corrcoef tde)) (\<lambda>corr.
     bind_res (lift (py_index corr (- 1))) (\<lambda>last_row.
     bind_res (emit [PrintVec '''' last_row]) (\<lambda>_.
     bind_res (lift (scan corr incl [0..<length train_states] (- 1, Fin 0))) (\<lambda>(max_index, max_abs).
     bind_res (lift (py_index train_states max_index)) (\<lambda>name.
     bind_res (emit [PrintMax max_index name]) (\<lambda>_.
     let incl' = insert max_index incl;
         includes = sorted_list_of_set incl'
     in
     bind_res (lift (list_index includes (int i))) (\<lambda>param_index.
     bind_res (lift (take_rows traindata includes)) (\<lambda>sub.
     bind_res (emit [PrintShape (length sub) (ncols sub)]) (\<lambda>_.
     bind_res (solve svd (int param_index) sub) (\<lambda>A.
     bind_res (lift (vecmat A sub)) (\<lambda>est.
     bind_res (lift (py_index traindata (int i))) (\<lambda>signal.
     bind_res (emit [Plot signal est]) (\<lambda>_.
     bind_res (lift (bcast1 fsub signal est)) (\<lambda>error'.
     bind_res (emit [PrintStd error']) (\<lambda>_.
     ret (corr, incl', error'))))))))))))))))))"

text \<open>
  The loop \<^verbatim>\<open>while True\<close> of line 181 has no \<^verbatim>\<open>break\<close> and no
  \<^verbatim>\<open>return\<close>: it is left by an exception only. A run that never ends has the value
  \<open>None\<close>. The result type is that of \<^verbatim>\<open>corr\<close>, the variable the code after the
  loop reads; \<open>out\<close> is what has been printed so far.
\<close>

partial_function (option) primary_loop ::
  "svd_fn \<Rightarrow> corr_fn \<Rightarrow> string list \<Rightarrow> mat \<Rightarrow> nat \<Rightarrow> event list \<Rightarrow> int set \<times> vec \<Rightarrow> (mat res) option"
where
  "primary_loop svd corrcoef train_states traindata i out st =
     (case iteration svd corrcoef train_states traindata i st of
        (out', Inl e) \<Rightarrow> Some (out @ out', Inl e)
      | (out', Inr (corr, st')) \<Rightarrow>
          primary_loop svd corrcoef train_states traindata i (out @ out') st')"

subsection \<open>The second scoring pass\<close>

text \<open>Lines 229 to 233: the largest \<open>|corr[j,k]|\<close> over the allocated rows \<open>k\<close>.\<close>

fun max_corr :: "mat \<Rightarrow> nat \<Rightarrow> nat list \<Rightarrow> fl \<Rightarrow> error + fl" where
  "max_corr corr j [] m = Inr m"
| "max_corr corr j (k # ks) m =
     (case index2 corr (int j) (int k) of
        Inl e \<Rightarrow> Inl e
      | Inr c \<Rightarrow> if fgt (fabs c) m then max_corr corr j ks (fabs c) else max_corr corr j ks m)"

text \<open>
  Lines 227 to 234. The dictionary \<^verbatim>\<open>rem\<close> is an association list in insertion
  order, \<^verbatim>\<open>incl\<close> the list of its keys in insertion order.
\<close>

definition score :: "mat \<Rightarrow> nat \<Rightarrow> nat list \<Rightarrow> nat \<Rightarrow> error + nat \<times> fl" where
  "score corr i incl j =
     (case max_corr corr j incl (Fin 0) of
        Inl e \<Rightarrow> Inl e
      | Inr m \<Rightarrow>
          (case index2 corr (int i) (int j) of
             Inl e \<Rightarrow> Inl e
           | Inr c \<Rightarrow> Inr (j, fsub (fabs c) m)))"

definition rescore :: "mat \<Rightarrow> nat \<Rightarrow> nat list \<Rightarrow> (nat \<times> fl) list \<Rightarrow> error + (nat \<times> fl) list" where
  "rescore corr i incl rem = collect (map (\<lambda>p. score corr i incl (fst p)) rem)"

text \<open>
  \<^verbatim>\<open>sorted(rem.items(), key=lambda item: item[1], reverse=True)\<close>: a stable sort,
  larger scores first, equal scores in their order in \<open>rem\<close>. An item is put after the
  items whose score is greater than its own. (With a \<^verbatim>\<open>nan\<close> score the order
  Python gives depends on its sorting algorithm; the theorems below do not use it.)
\<close>

fun insert_desc :: "nat \<times> fl \<Rightarrow> (nat \<times> fl) list \<Rightarrow> (nat \<times> fl) list" where
  "insert_desc x [] = [x]"
| "insert_desc x (y # ys) = (if fgt (snd y) (snd x) then y # insert_desc x ys else x # y # ys)"

definition sorted_desc :: "(nat \<times> fl) list \<Rightarrow> (nat \<times> fl) list" where
  "sorted_desc xs = foldr insert_desc xs []"

text \<open>Lines 226 to 240: one pass through the body of \<^verbatim>\<open>while len(rem)\<close>.\<close>

definition rank_step ::
  "mat \<Rightarrow> string list \<Rightarrow> nat \<Rightarrow> vec \<Rightarrow> nat list \<times> (nat \<times> fl) list \<Rightarrow> (nat list \<times> (nat \<times> fl) list) res"
where
  "rank_step corr train_states i row st =
     (case st of (incl, rem) \<Rightarrow>
     bind_res (lift (rescore corr i incl rem)) (\<lambda>rem'.
     let idx = sorted_desc rem'; j = fst (hd idx) in
     bind_res (lift (py_index row (int j))) (\<lambda>c.
     bind_res (lift (py_index train_states (int j))) (\<lambda>name.
     bind_res (emit [PrintScore c name]) (\<lambda>_.
     ret (incl @ [j], filter (\<lambda>p. fst p \<noteq> j) rem'))))))"

text \<open>
  The loop \<^verbatim>\<open>while len(rem)\<close> ends: a pass keeps the keys of \<open>rem\<close> and deletes
  the first key of the sorted items, which is one of them.
\<close>

lemma bind_res_Inr [simp]: "bind_res (out, Inr x) f = (out @ fst (f x), snd (f x))"
  by (simp add: bind_res_def split: prod.splits)

lemma bind_res_Inl [simp]: "bind_res (out, Inl e) f = (out, Inl e)"
  by (simp add: bind_res_def)

lemma bind_lift_Inr [simp]: "bind_res (lift (Inr x)) f = f x"
  by (simp add: lift_def)

lemma bind_lift_Inl [simp]: "bind_res (lift (Inl e)) f = ([], Inl e)"
  by (simp add: lift_def)

lemma bind_emit [simp]: "bind_res (emit out) f = (out @ fst (f ()), snd (f ()))"
  by (simp add: emit_def)

lemma snd_ret [simp]: "snd (ret x) = Inr x"
  by (simp add: ret_def)

lemma fst_ret [simp]: "fst (ret x) = []"
  by (simp add: ret_def)

lemma score_fst: "score corr i incl j = Inr p \<Longrightarrow> fst p = j"
  by (auto simp: score_def split: sum.splits)

lemma collect_map_fst:
  "collect (map f xs) = Inr ys \<Longrightarrow> (\<And>x y. f x = Inr y \<Longrightarrow> g y = h x) \<Longrightarrow> map g ys = map h xs"
  by (induction xs arbitrary: ys) (auto split: sum.splits)

lemma rescore_keys: "rescore corr i incl rem = Inr rem' \<Longrightarrow> map fst rem' = map fst rem"
  unfolding rescore_def by (erule collect_map_fst) (rule score_fst)

lemma set_insert_desc: "set (insert_desc x ys) = insert x (set ys)"
  by (induction ys) auto

lemma set_sorted_desc: "set (sorted_desc xs) = set xs"
  unfolding sorted_desc_def by (induction xs) (auto simp: set_insert_desc)

lemma sorted_desc_Nil: "sorted_desc xs = [] \<longleftrightarrow> xs = []"
  using set_sorted_desc [of xs] by (metis set_empty)

lemma hd_sorted_desc_mem: "xs \<noteq> [] \<Longrightarrow> hd (sorted_desc xs) \<in> set xs"
  using hd_in_set [of "sorted_desc xs"] by (simp add: sorted_desc_Nil set_sorted_desc)

lemma rank_step_shrinks:
  assumes "rank_step corr train_states i row (incl, rem) = (out, Inr (incl', rem'))" "rem \<noteq> []"
  shows "length rem' < length rem"
proof -
  from assms(1) obtain r where r: "rescore corr i incl rem = Inr r"
    and rem': "rem' = filter (\<lambda>p. fst p \<noteq> fst (hd (sorted_desc r))) r"
    by (auto simp: rank_step_def Let_def lift_def emit_def ret_def bind_res_def
        split: sum.splits prod.splits)
  have len: "length r = length rem" using rescore_keys [OF r] by (metis length_map)
  then have "r \<noteq> []" using assms(2) by auto
  then have "hd (sorted_desc r) \<in> set r" by (rule hd_sorted_desc_mem)
  then have "length (filter (\<lambda>p. fst p \<noteq> fst (hd (sorted_desc r))) r) < length r"
    by (intro length_filter_less [where x = "hd (sorted_desc r)"]) auto
  then show ?thesis using rem' len by simp
qed

function rank_loop ::
  "mat \<Rightarrow> string list \<Rightarrow> nat \<Rightarrow> vec \<Rightarrow> nat list \<times> (nat \<times> fl) list \<Rightarrow> unit res"
where
  "rank_loop corr train_states i row st =
     (if snd st = [] then emit [Print '''']
      else case rank_step corr train_states i row st of
             (out, Inl e) \<Rightarrow> (out, Inl e)
           | (out, Inr st') \<Rightarrow>
               (case rank_loop corr train_states i row st' of (out', r) \<Rightarrow> (out @ out', r)))"
  by pat_completeness auto
termination
  apply (relation "measure (\<lambda>(corr, train_states, i, row, st). length (snd st))")
   apply simp
  apply (auto dest: rank_step_shrinks [OF sym])
  done

text \<open>
  Lines 217 to 241. \<^verbatim>\<open>incl\<close> starts empty, \<^verbatim>\<open>rem\<close> holds every index of
  \<^verbatim>\<open>row\<close> but \<open>i\<close>, with score 0.
\<close>

definition second_pass :: "mat \<Rightarrow> string list \<Rightarrow> nat \<Rightarrow> unit res" where
  "second_pass corr train_states i =
     bind_res (lift (py_index train_states (int i))) (\<lambda>name.
     bind_res (emit [Print (name @ '': '')]) (\<lambda>_.
     bind_res (lift (py_index corr (int i))) (\<lambda>row.
     rank_loop corr train_states i row
       ([], map (\<lambda>j. (j, Fin 0)) (filter (\<lambda>j. j \<noteq> i) [0..<length row])))))"

subsection \<open>The report\<close>

text \<open>Sequencing of computations that may also run forever.\<close>

definition bind_opt :: "'a res option \<Rightarrow> ('a \<Rightarrow> 'b res option) \<Rightarrow> 'b res option" where
  "bind_opt m f =
     (case m of
        None \<Rightarrow> None
      | Some (out, Inl e) \<Rightarrow> Some (out, Inl e)
      | Some (out, Inr x) \<Rightarrow>
          (case f x of None \<Rightarrow> None | Some (out', r) \<Rightarrow> Some (out @ out', r)))"

text \<open>Lines 169 to 241: the body of \<^verbatim>\<open>for s in fit_states\<close>.\<close>

definition fit_state :: "svd_fn \<Rightarrow> corr_fn \<Rightarrow> string list \<Rightarrow> mat \<Rightarrow> string \<Rightarrow> unit res option" where
  "fit_state svd corrcoef train_states traindata s =
     bind_opt (Some (lift (list_index train_states s))) (\<lambda>i.
     bind_opt (Some (lift (py_index traindata (int i)))) (\<lambda>signal.
     let error = map fneg signal in
     bind_opt (primary_loop svd corrcoef train_states traindata i
                 [PrintVec '''' error] ({int i}, error)) (\<lambda>corr.
     Some (second_pass corr train_states i))))"

fun for_fit_states ::
  "svd_fn \<Rightarrow> corr_fn \<Rightarrow> string list \<Rightarrow> mat \<Rightarrow> string list \<Rightarrow> unit res option"
where
  "for_fit_states svd corrcoef train_states traindata [] = Some (ret ())"
| "for_fit_states svd corrcoef train_states traindata (s # ss) =
     bind_opt (fit_state svd corrcoef train_states traindata s) (\<lambda>_.
     for_fit_states svd corrcoef train_states traindata ss)"

definition correlation_report_3 ::
  "svd_fn \<Rightarrow> corr_fn \<Rightarrow> string list \<Rightarrow> mat \<Rightarrow> string list \<Rightarrow> unit res option"
where
  "correlation_report_3 svd corrcoef train_states traindata fit_states =
     bind_opt (Some (emit [Print ''test pearson correlation coefficients:'',
                           PrintNames train_states])) (\<lambda>_.
     bind_opt (Some (lift (corrcoef traindata))) (\<lambda>corr.
     bind_opt (Some (emit [PrintMat '''' corr])) (\<lambda>_.
     for_fit_states svd corrcoef train_states traindata fit_states)))"

section \<open>The condition loop\<close>

text \<open>
  What \<^verbatim>\<open>train_data.build\<close> leaves in \<^verbatim>\<open>train_data.cond_list\<close> for one flight
  condition: the state vectors, one per sample, and the coefficients.
\<close>

record cond_entry =
  traindata_list :: mat
  coeff :: vec

text \<open>\<^verbatim>\<open>condition_dict\<close> of line 246 and \<^verbatim>\<open>root_dict\<close> of lines 109 to 114.\<close>

record condition_dict =
  condition :: flight_condition

record model_record =
  dt :: real
  rows :: nat
  cols :: nat
  conditions :: "condition_dict list"

text \<open>
  The variables of the script that the condition loop can change: \<^verbatim>\<open>root_dict\<close>, and
  the conditions whose entry of \<^verbatim>\<open>cond_list\<close> got a \<^verbatim>\<open>sysid\<close>.
\<close>

record script_state =
  root_dict :: model_record
  sysid_set :: "nat list"

text \<open>Lines 244 to 253. An exception of the report leaves the loop and ends the script.\<close>

fun condition_loop ::
  "svd_fn \<Rightarrow> corr_fn \<Rightarrow> string list \<Rightarrow> string list \<Rightarrow> cond_entry list \<Rightarrow>
   (nat \<times> flight_condition) list \<Rightarrow> script_state \<Rightarrow> script_state res option"
where
  "condition_loop svd corrcoef train_states output_states cond_list [] st = Some (ret st)"
| "condition_loop svd corrcoef train_states output_states cond_list ((i, cond) # rest) st =
     bind_opt (Some (emit [PrintCond i cond])) (\<lambda>_.
     let condition_dict = \<lparr>condition = cond\<rparr> in
     bind_opt (Some (lift (py_index cond_list (int i)))) (\<lambda>entry.
     let traindata = mat_T (traindata_list entry);
         st' = st\<lparr>sysid_set := sysid_set st @ [i]\<rparr>
     in
     bind_opt (correlation_report_3 svd corrcoef train_states traindata output_states) (\<lambda>_.
     condition_loop svd corrcoef train_states output_states cond_list rest st')))"

text \<open>Lines 102 to 106.\<close>

fun conditions_report :: "cond_entry list \<Rightarrow> (nat \<times> flight_condition) list \<Rightarrow> unit res" where
  "conditions_report cond_list [] = ret ()"
| "conditions_report cond_list ((i, cond) # rest) =
     bind_res (emit [PrintCond i cond]) (\<lambda>_.
     bind_res (lift (py_index cond_list (int i))) (\<lambda>entry.
     bind_res (lift (py_index (traindata_list entry) 0)) (\<lambda>v.
     bind_res (emit [PrintInt ''  Number of states:'' (int (length v)),
                     PrintInt ''  Input state vectors:'' (int (length (traindata_list entry)))]) (\<lambda>_.
     conditions_report cond_list rest))))"

text \<open>
  Lines 102 to 253 of the script, after \<^verbatim>\<open>train_data.build\<close>. The time step and the
  two dimensions come from the state manager.
\<close>

definition script ::
  "svd_fn \<Rightarrow> corr_fn \<Rightarrow> real \<Rightarrow> nat \<Rightarrow> nat \<Rightarrow> string list \<Rightarrow> string list \<Rightarrow> cond_entry list \<Rightarrow>
   flight_condition list \<Rightarrow> script_state res option"
where
  "script svd corrcoef step n_output n_state train_states output_states cond_list conds =
     bind_opt (Some (emit [Print ''Conditions report:''])) (\<lambda>_.
     bind_opt (Some (conditions_report cond_list (enumerate 0 conds))) (\<lambda>_.
     let root = \<lparr>dt = step, rows = n_output, cols = n_state, conditions = []\<rparr> in
     condition_loop svd corrcoef train_states output_states cond_list (enumerate 0 conds)
       \<lparr>root_dict = root, sysid_set = []\<rparr>))"

section \<open>Shapes\<close>

text \<open>\<open>rect m n a\<close>: the array \<open>a\<close> has \<open>m\<close> rows of \<open>n\<close> values each.\<close>

definition rect :: "nat \<Rightarrow> nat \<Rightarrow> mat \<Rightarrow> bool" where
  "rect m n a = (length a = m \<and> list_all (\<lambda>r. length r = n) a)"

text \<open>
  \<^verbatim>\<open>da.linalg.svd\<close> returns the thin factors: for an \<open>m \<times> n\<close> array, \<open>u\<close> is
  \<open>m \<times> k\<close>, \<open>s\<close> has \<open>k\<close> values and \<open>vh\<close> is \<open>k \<times> n\<close>, with \<open>k = min m n\<close>.
\<close>

definition thin_svd :: "nat \<Rightarrow> nat \<Rightarrow> mat \<times> vec \<times> mat \<Rightarrow> bool" where
  "thin_svd m n f =
     (case f of (u, s, vh) \<Rightarrow>
        rect m (min m n) u \<and> length s = min m n \<and> rect (min m n) n vh)"

text \<open>
  The words of the specification, for an array of \<open>n\<close> samples: the previous-state block
  holds the samples \<open>0\<close> to \<open>n - 2\<close> of every row, the next-state block the samples
  \<open>1\<close> to \<open>n - 1\<close> of the target row, and the operator is
  \<open>Y \<cdot> V \<cdot> diag(1/S) \<cdot> U\<^sup>T\<close> with \<open>V\<close> cut to its first \<open>m\<close> columns
  (multiplying by \<open>diag(1/S)\<close> scales the columns).
\<close>

definition prev_block :: "nat \<Rightarrow> mat \<Rightarrow> mat" where
  "prev_block n a = map (\<lambda>r. map (\<lambda>t. r ! t) [0..<n - 1]) a"

definition next_block :: "nat \<Rightarrow> vec \<Rightarrow> vec" where
  "next_block n r = map (\<lambda>t. r ! t) [1..<n]"

definition pinv_operator :: "nat \<Rightarrow> vec \<Rightarrow> mat \<Rightarrow> vec \<Rightarrow> mat \<Rightarrow> error + vec" where
  "pinv_operator m y u s vh =
     (case mul_rows (map (take m) (mat_T vh)) (map frecip s) of
        Inl e \<Rightarrow> Inl e
      | Inr w \<Rightarrow> (case vecmat y w of Inl e \<Rightarrow> Inl e | Inr yw \<Rightarrow> vecmat yw (mat_T u)))"

lemma collect_map_Inr:
  "list_all (\<lambda>x. f x = Inr (g x)) xs \<Longrightarrow> collect (map f xs) = Inr (map g xs)"
  by (induction xs) auto

lemma rect_length: "rect m n a \<Longrightarrow> length a = m"
  by (simp add: rect_def)

lemma rect_row: "rect m n a \<Longrightarrow> r \<in> set a \<Longrightarrow> length r = n"
  by (simp add: rect_def list_all_iff)

lemma rect_nth: "rect m n a \<Longrightarrow> k < m \<Longrightarrow> length (a ! k) = n"
  by (simp add: rect_def list_all_length)

lemma ncols_rect: "rect m n a \<Longrightarrow> 0 < m \<Longrightarrow> ncols a = n"
  by (cases a) (auto simp: rect_def ncols_def)

lemma rect_mat_T: "rect m n a \<Longrightarrow> 0 < m \<Longrightarrow> rect n m (mat_T a)"
  by (simp add: ncols_rect mat_T_def col_def rect_def list_all_iff)

lemma butlast_prev: "length r = n \<Longrightarrow> butlast r = map (\<lambda>t. r ! t) [0..<n - 1]"
  by (auto simp: list_eq_iff_nth_eq nth_butlast)

lemma tl_next: "length r = n \<Longrightarrow> tl r = next_block n r"
  by (auto simp: next_block_def list_eq_iff_nth_eq nth_tl)

lemma map_butlast_prev: "rect m n a \<Longrightarrow> map butlast a = prev_block n a"
  unfolding prev_block_def
proof (rule map_cong)
  fix x assume "rect m n a" "x \<in> set a"
  then have "length x = n" by (rule rect_row)
  then show "butlast x = map (\<lambda>t. x ! t) [0..<n - 1]" by (rule butlast_prev)
qed simp

lemma rect_map_butlast: "rect m n a \<Longrightarrow> rect m (n - 1) (map butlast a)"
  by (simp add: rect_def list_all_iff)

lemma mul_rows_rect:
  "rect m k a \<Longrightarrow> length s = k \<Longrightarrow> mul_rows a s = Inr (map (\<lambda>r. map2 fmul r s) a)"
  unfolding mul_rows_def
  by (rule collect_map_Inr) (simp add: rect_def list_all_iff bcast1_def)

lemma rect_scaled: "rect m k a \<Longrightarrow> length s = k \<Longrightarrow> rect m k (map (\<lambda>r. map2 fmul r s) a)"
  by (simp add: rect_def list_all_iff)

lemma vecmat_rect:
  "rect k n a \<Longrightarrow> length v = k \<Longrightarrow> vecmat v a = Inr (map (\<lambda>j. dot v (col j a)) [0..<ncols a])"
  by (simp add: vecmat_def rect_def)

lemma matmul_rect:
  "rect m k a \<Longrightarrow> rect k n b \<Longrightarrow>
   matmul a b = Inr (map (\<lambda>r. map (\<lambda>j. dot r (col j b)) [0..<ncols b]) a)"
  unfolding matmul_def
  by (rule collect_map_Inr) (simp add: rect_def list_all_iff vecmat_def)

lemma rect_matmul_val:
  "rect m k a \<Longrightarrow> rect k n b \<Longrightarrow> 0 < k \<Longrightarrow>
   rect m n (map (\<lambda>r. map (\<lambda>j. dot r (col j b)) [0..<ncols b]) a)"
  by (simp add: ncols_rect) (simp add: rect_def list_all_iff)

lemma bcast2_rect:
  assumes a: "rect m n a" and b: "rect m n b"
  shows "bcast2 f a b = Inr (map2 (map2 f) a b)"
proof -
  have same: "length x = length y" if xy: "(x, y) \<in> set (zip a b)" for x y
  proof -
    have "x \<in> set a" using xy by (rule set_zip_leftD)
    moreover have "y \<in> set b" using xy by (rule set_zip_rightD)
    ultimately show ?thesis using a b by (simp add: rect_def list_all_iff)
  qed
  have "list_all (\<lambda>p. (\<lambda>(x, y). bcast1 f x y) p = Inr ((\<lambda>(x, y). map2 f x y) p)) (zip a b)"
    using same by (auto simp: list_all_iff bcast1_def)
  then have "collect (map2 (bcast1 f) a b) = Inr (map2 (map2 f) a b)"
    by (rule collect_map_Inr)
  then show ?thesis using a b by (simp add: bcast2_def rect_def)
qed

lemma allclose_rect: "rect m n a \<Longrightarrow> rect m n b \<Longrightarrow> \<exists>c. allclose a b = Inr c"
  by (simp add: allclose_def bcast2_rect)

lemma py_index_nat: "0 \<le> i \<Longrightarrow> i < int (length xs) \<Longrightarrow> py_index xs i = Inr (xs ! nat i)"
  by (simp add: py_index_def)

lemma take_all_rows: "rect k n a \<Longrightarrow> k \<le> j \<Longrightarrow> map (take j) (mat_T a) = mat_T a"
  by (simp add: mat_T_def col_def rect_def)

text \<open>
  What \<open>solve\<close> does on a rectangular array when the library returns thin factors: it
  prints ten lines and returns the operator. The cut of \<open>V\<close> at \<open>states\<close> columns, the
  number of samples, keeps all of \<open>V\<close>, as a cut at the number of rows does.
\<close>

lemma solve_thin:
  assumes td: "rect M N traindata" and M: "0 < M" and N: "1 < N"
    and i: "0 \<le> i" "i < int M"
    and svd: "svd (map butlast traindata) = Inr (u, s, vh)"
    and thin: "thin_svd M (N - 1) (u, s, vh)"
  shows "\<exists>A c. pinv_operator M (tl (traindata ! nat i)) u s vh = Inr A \<and> length A = M \<and>
           solve svd i traindata =
             ([PrintMat ''X:'' (map butlast traindata), PrintVec ''Y:'' (tl (traindata ! nat i)),
               Print ''dask svd...'', PrintMat ''u:'' u, PrintVec ''s:'' s, PrintMat ''vh:'' vh,
               PrintBool ''dask svd close?'' c, PrintVec ''s inv:'' (map frecip s),
               PrintInt ''A rank:'' (matrix_rank A), PrintVec ''A:'' A], Inr A)"
proof -
  define K where "K = min M (N - 1)"
  have K: "0 < K" "K \<le> M" "K \<le> N" using M N by (auto simp: K_def)
  have u: "rect M K u" and s: "length s = K" and vh: "rect K (N - 1) vh"
    using thin by (simp_all add: thin_svd_def K_def)
  have len: "length traindata = M" using td by (rule rect_length)
  have row0: "py_index traindata 0 = Inr (traindata ! 0)"
    using M len by (simp add: py_index_def)
  have l0: "length (traindata ! 0) = N" using td M by (rule rect_nth)
  have rowi: "py_index traindata i = Inr (traindata ! nat i)"
    using i len by (simp add: py_index_nat)
  have li: "length (traindata ! nat i) = N" using td i by (auto intro: rect_nth)
  define Y where "Y = tl (traindata ! nat i)"
  have lY: "length Y = N - 1" using li by (simp add: Y_def)
  define us where "us = map (\<lambda>r. map2 fmul r s) u"
  have us: "mul_rows u s = Inr us" using u s by (simp add: mul_rows_rect us_def)
  have rus: "rect M K us" unfolding us_def using u s by (rule rect_scaled)
  have tk: "take N vh = vh" using vh K by (simp add: rect_def)
  define Xr where "Xr = map (\<lambda>r. map (\<lambda>j. dot r (col j vh)) [0..<ncols vh]) us"
  have Xr: "matmul us vh = Inr Xr" unfolding Xr_def using rus vh by (rule matmul_rect)
  have rXr: "rect M (N - 1) Xr" unfolding Xr_def using rus vh K(1) by (rule rect_matmul_val)
  have rX: "rect M (N - 1) (map butlast traindata)" using td by (rule rect_map_butlast)
  obtain c where c: "allclose (map butlast traindata) Xr = Inr c"
    using allclose_rect [OF rX rXr] by blast
  have rv: "rect (N - 1) K (mat_T vh)" using vh K(1) by (rule rect_mat_T)
  have tN: "map (take N) (mat_T vh) = mat_T vh" using vh K(3) by (rule take_all_rows)
  have tM: "map (take M) (mat_T vh) = mat_T vh" using vh K(2) by (rule take_all_rows)
  define w where "w = map (\<lambda>r. map2 fmul r (map frecip s)) (mat_T vh)"
  have w: "mul_rows (mat_T vh) (map frecip s) = Inr w"
    using rv s by (simp add: mul_rows_rect w_def)
  have rw: "rect (N - 1) K w" unfolding w_def using rv s by (simp add: rect_scaled)
  define yw where "yw = map (\<lambda>j. dot Y (col j w)) [0..<ncols w]"
  have yw: "vecmat Y w = Inr yw" unfolding yw_def using rw lY by (rule vecmat_rect)
  have lyw: "length yw = K" unfolding yw_def using rw N by (simp add: ncols_rect)
  have ruT: "rect K M (mat_T u)" using u M by (rule rect_mat_T)
  define A where "A = map (\<lambda>j. dot yw (col j (mat_T u))) [0..<ncols (mat_T u)]"
  have A: "vecmat yw (mat_T u) = Inr A" unfolding A_def using ruT lyw by (rule vecmat_rect)
  have lA: "length A = M" unfolding A_def using ruT K(1) by (simp add: ncols_rect)
  have "pinv_operator M Y u s vh = Inr A"
    by (simp add: pinv_operator_def tM w yw A)
  moreover have "solve svd i traindata =
             ([PrintMat ''X:'' (map butlast traindata), PrintVec ''Y:'' Y,
               Print ''dask svd...'', PrintMat ''u:'' u, PrintVec ''s:'' s, PrintMat ''vh:'' vh,
               PrintBool ''dask svd close?'' c, PrintVec ''s inv:'' (map frecip s),
               PrintInt ''A rank:'' (matrix_rank A), PrintVec ''A:'' A], Inr A)"
    by (simp add: solve_def row0 rowi l0 svd us tk Xr c tN w yw A Y_def [symmetric] ret_def)
  ultimately show ?thesis using lA unfolding Y_def by blast
qed

text \<open>A training array of two rows and three samples, and the thin factors of its previous-state block.\<close>

definition id2 :: mat where
  "id2 = [[Fin 1, Fin 0], [Fin 0, Fin 1]]"

definition ex_traindata :: mat where
  "ex_traindata = [[Fin 2, Fin 0, Fin 1], [Fin 0, Fin 1, Fin 3]]"

definition ex_svd :: svd_fn where
  "ex_svd X = (if X = [[Fin 2, Fin 0], [Fin 0, Fin 1]] then Inr (id2, [Fin 2, Fin 1], id2) else Inl LibraryError)"

lemmas array_defs =
  py_index_def take_rows_def ncols_def col_def mat_T_def dot_def vecmat_def matmul_def
  bcast1_def mul_rows_def bcast2_def allclose_def matrix_rank_def vstack_def index2_def
  upt_conv_Cons

section \<open>The solver: the operator\<close>

text \<open>
  C1. For a training array of \<open>M\<close> rows and \<open>N\<close> samples and a target row \<open>i\<close>,
  \<open>solve\<close> hands the previous-state block (all rows, samples \<open>0\<close> to \<open>N - 2\<close>) to the
  SVD, and from the thin factors \<open>u\<close>, \<open>s\<close>, \<open>vh\<close> it gets back it returns
  \<open>Y \<cdot> V \<cdot> diag(1/S) \<cdot> U\<^sup>T\<close>, where \<open>Y\<close> is the next-state block (row \<open>i\<close>, samples
  \<open>1\<close> to \<open>N - 1\<close>) and \<open>V\<close> is cut to its first \<open>M\<close> columns; the operator has \<open>M\<close>
  entries.
\<close>

theorem solve_pseudo_inverse:
  assumes "rect M N traindata" and "0 < M" and "1 < N" and "0 \<le> i" and "i < int M"
    and "svd (prev_block N traindata) = Inr (u, s, vh)"
    and "thin_svd M (N - 1) (u, s, vh)"
  shows "\<exists>A. pinv_operator M (next_block N (traindata ! nat i)) u s vh = Inr A \<and>
             snd (solve svd i traindata) = Inr A \<and> length A = M"
proof -
  have X: "map butlast traindata = prev_block N traindata"
    using assms(1) by (rule map_butlast_prev)
  have "length (traindata ! nat i) = N" using assms(1,4,5) by (auto intro: rect_nth)
  then have Y: "tl (traindata ! nat i) = next_block N (traindata ! nat i)" by (rule tl_next)
  obtain A c where "pinv_operator M (tl (traindata ! nat i)) u s vh = Inr A" "length A = M"
    "solve svd i traindata =
       ([PrintMat ''X:'' (map butlast traindata), PrintVec ''Y:'' (tl (traindata ! nat i)),
         Print ''dask svd...'', PrintMat ''u:'' u, PrintVec ''s:'' s, PrintMat ''vh:'' vh,
         PrintBool ''dask svd close?'' c, PrintVec ''s inv:'' (map frecip s),
         PrintInt ''A rank:'' (matrix_rank A), PrintVec ''A:'' A], Inr A)"
    using solve_thin [OF assms(1-5) _ assms(7), of svd] assms(6) X by auto
  then show ?thesis using Y by auto
qed

theorem solve_pseudo_inverse_witness:
  "pinv_operator 2 (next_block 3 (ex_traindata ! nat 0)) id2 [Fin 2, Fin 1] id2 = Inr [Fin 0, Fin 1] \<and>
   snd (solve ex_svd 0 ex_traindata) = Inr [Fin 0, Fin 1]"
proof -
  have "\<exists>A. pinv_operator 2 (next_block 3 (ex_traindata ! nat 0)) id2 [Fin 2, Fin 1] id2 = Inr A \<and>
             snd (solve ex_svd 0 ex_traindata) = Inr A \<and> length A = 2"
    by (rule solve_pseudo_inverse)
      (simp_all add: rect_def thin_svd_def prev_block_def ex_traindata_def ex_svd_def id2_def
        upt_conv_Cons)
  moreover have "pinv_operator 2 (next_block 3 (ex_traindata ! nat 0)) id2 [Fin 2, Fin 1] id2
      = Inr [Fin 0, Fin 1]"
    by (simp add: pinv_operator_def next_block_def ex_traindata_def id2_def array_defs)
  ultimately show ?thesis by auto
qed

section \<open>The solver: a zero singular value, and what is returned\<close>

text \<open>
  A training array whose previous-state block \<open>[[1, 0], [0, 0]]\<close> has rank one, and the thin
  factors of that block: the second singular value is zero.
\<close>

definition singular_traindata :: mat where
  "singular_traindata = [[Fin 1, Fin 0, Fin 2], [Fin 0, Fin 0, Fin 5]]"

definition singular_svd :: svd_fn where
  "singular_svd X =
     (if X = [[Fin 1, Fin 0], [Fin 0, Fin 0]] then Inr (id2, [Fin 1, Fin 0], id2)
      else Inl LibraryError)"

text \<open>
  C5, as stated, fails: with a singular value that is exactly zero \<open>solve\<close> raises nothing.
  The reciprocal is \<^verbatim>\<open>inf\<close>, the products with it are \<^verbatim>\<open>nan\<close>, and the operator
  \<open>[nan, nan]\<close> is returned.
\<close>

theorem solve_zero_singular_counterexample:
  "singular_svd (map butlast singular_traindata) = Inr (id2, [Fin 1, Fin 0], id2) \<and>
   snd (solve singular_svd 0 singular_traindata) = Inr [NaN, NaN]"
  by (simp add: solve_def singular_svd_def singular_traindata_def id2_def array_defs ret_def Let_def)

text \<open>
  C5, amended. When a singular value is exactly zero, \<open>solve\<close> does not fail: the
  reciprocals it prints hold \<^verbatim>\<open>inf\<close>, and it returns an operator of \<open>M\<close> entries.
\<close>

theorem solve_zero_singular_returns:
  assumes "rect M N traindata" and "0 < M" and "1 < N" and "0 \<le> i" and "i < int M"
    and "svd (map butlast traindata) = Inr (u, s, vh)"
    and "thin_svd M (N - 1) (u, s, vh)"
    and "Fin 0 \<in> set s"
  shows "\<exists>A. snd (solve svd i traindata) = Inr A \<and> length A = M \<and>
             PrintVec ''s inv:'' (map frecip s) \<in> set (fst (solve svd i traindata)) \<and>
             PInf \<in> set (map frecip s)"
proof -
  have "frecip (Fin 0) \<in> frecip ` set s" using assms(8) by (rule imageI)
  then have "PInf \<in> set (map frecip s)" by simp
  then show ?thesis using solve_thin [of M N traindata i svd u s vh] assms(1-7) by auto
qed

theorem solve_zero_singular_returns_witness:
  "\<exists>A. snd (solve singular_svd 0 singular_traindata) = Inr A \<and> length A = 2 \<and>
       PrintVec ''s inv:'' (map frecip [Fin 1, Fin 0])
         \<in> set (fst (solve singular_svd 0 singular_traindata)) \<and>
       PInf \<in> set (map frecip [Fin 1, Fin 0])"
  by (rule solve_zero_singular_returns [where N = 3 and u = id2 and vh = id2])
    (simp_all add: rect_def thin_svd_def singular_svd_def singular_traindata_def id2_def)

text \<open>
  C7, as stated, fails: \<open>solve\<close> returns the operator alone, here \<open>[0, 1]\<close>; its rank (one)
  is printed, with nine other lines, and is not part of what is returned.
\<close>

theorem solve_returns_operator_counterexample:
  "solve ex_svd 0 ex_traindata =
     ([PrintMat ''X:'' [[Fin 2, Fin 0], [Fin 0, Fin 1]], PrintVec ''Y:'' [Fin 0, Fin 1],
       Print ''dask svd...'', PrintMat ''u:'' id2, PrintVec ''s:'' [Fin 2, Fin 1],
       PrintMat ''vh:'' id2, PrintBool ''dask svd close?'' True,
       PrintVec ''s inv:'' [Fin (1 / 2), Fin 1], PrintInt ''A rank:'' 1,
       PrintVec ''A:'' [Fin 0, Fin 1]],
      Inr [Fin 0, Fin 1])"
  by (simp add: solve_def ex_svd_def ex_traindata_def id2_def array_defs ret_def Let_def)

text \<open>
  C7, amended. \<open>solve\<close> returns the fitted operator only; the rank of the operator is
  printed, before the operator itself, which is the last line printed.
\<close>

theorem solve_returns_operator:
  assumes "rect M N traindata" and "0 < M" and "1 < N" and "0 \<le> i" and "i < int M"
    and "svd (map butlast traindata) = Inr (u, s, vh)"
    and "thin_svd M (N - 1) (u, s, vh)"
  shows "\<exists>A. snd (solve svd i traindata) = Inr A \<and>
             PrintInt ''A rank:'' (matrix_rank A) \<in> set (fst (solve svd i traindata)) \<and>
             last (fst (solve svd i traindata)) = PrintVec ''A:'' A"
  using solve_thin [of M N traindata i svd u s vh] assms by auto

theorem solve_returns_operator_witness:
  "\<exists>A. snd (solve ex_svd 0 ex_traindata) = Inr A \<and>
       PrintInt ''A rank:'' (matrix_rank A) \<in> set (fst (solve ex_svd 0 ex_traindata)) \<and>
       last (fst (solve ex_svd 0 ex_traindata)) = PrintVec ''A:'' A"
  by (rule solve_returns_operator [where M = 2 and N = 3 and u = id2 and s = "[Fin 2, Fin 1]" and vh = id2])
    (simp_all add: rect_def thin_svd_def ex_svd_def ex_traindata_def id2_def)

section \<open>The primary loop\<close>

text \<open>
  What the loop needs of the two library functions, for a training array of \<open>M\<close> rows and
  \<open>N\<close> samples: the SVD of an array of \<open>N - 1\<close> columns returns thin factors, and the
  correlation matrix of \<open>M + 1\<close> rows of \<open>N\<close> samples is \<open>(M + 1) \<times> (M + 1)\<close>.
\<close>

definition lib_ok :: "svd_fn \<Rightarrow> corr_fn \<Rightarrow> nat \<Rightarrow> nat \<Rightarrow> bool" where
  "lib_ok svd corrcoef M N =
     ((\<forall>X m. 0 < m \<and> rect m (N - 1) X \<longrightarrow> (\<exists>f. svd X = Inr f \<and> thin_svd m (N - 1) f)) \<and>
      (\<forall>tde. rect (Suc M) N tde \<longrightarrow> (\<exists>c. corrcoef tde = Inr c \<and> rect (Suc M) (Suc M) c)))"

text \<open>
  The state of the loop: the error row has \<open>N\<close> samples, and the included set is finite,
  holds the target \<open>i\<close> and, besides row indices, at most the index \<open>-1\<close>.
\<close>

definition loop_inv :: "nat \<Rightarrow> nat \<Rightarrow> nat \<Rightarrow> int set \<times> vec \<Rightarrow> bool" where
  "loop_inv M N i st =
     (case st of (incl, err) \<Rightarrow>
        length err = N \<and> finite incl \<and> int i \<in> incl \<and> (\<forall>k\<in>incl. - 1 \<le> k \<and> k < int M))"

lemma py_index_last: "xs \<noteq> [] \<Longrightarrow> py_index xs (- 1) = Inr (last xs)"
  by (cases xs rule: rev_cases) (auto simp: py_index_def)

lemma py_index_ok:
  "- int (length xs) \<le> k \<Longrightarrow> k < int (length xs) \<Longrightarrow> \<exists>x. py_index xs k = Inr x \<and> x \<in> set xs"
  by (auto simp: py_index_def)

lemma index2_last:
  "rect (Suc m) n corr \<Longrightarrow> j < n \<Longrightarrow> index2 corr (- 1) (int j) = Inr (last corr ! j)"
proof -
  assume r: "rect (Suc m) n corr" and j: "j < n"
  then have ne: "corr \<noteq> []" by (auto simp: rect_def)
  then have "last corr \<in> set corr" by simp
  then have "length (last corr) = n" using r by (simp add: rect_row)
  then show ?thesis using ne j by (simp add: index2_def py_index_last py_index_nat)
qed

lemma scan_ok:
  assumes "rect (Suc m) n corr" and "list_all (\<lambda>j. j < n) js"
  shows "\<exists>mi ma. scan corr incl js best = Inr (mi, ma) \<and>
           (mi = fst best \<or> (mi \<in> int ` set js \<and> mi \<notin> incl))"
  using assms(2)
proof (induction js arbitrary: best)
  case Nil
  then show ?case by (cases best) simp
next
  case (Cons j js)
  have ix: "index2 corr (- 1) (int j) = Inr (last corr ! j)"
    using assms(1) Cons.prems by (simp add: index2_last)
  have js: "list_all (\<lambda>j. j < n) js" using Cons.prems by simp
  show ?case
  proof (cases "int j \<in> incl")
    case True
    then show ?thesis using Cons.IH [OF js, of best] by auto
  next
    case False
    show ?thesis
    proof (cases "fgt (fabs (last corr ! j)) (snd best)")
      case True
      then show ?thesis
        using Cons.IH [OF js, of "(int j, fabs (last corr ! j))"] False ix by auto
    next
      case notgt: False
      then show ?thesis using Cons.IH [OF js, of best] False ix by auto
    qed
  qed
qed

lemma list_index_mem:
  "x \<in> set xs \<Longrightarrow> \<exists>p. list_index xs x = Inr p \<and> p < length xs \<and> xs ! p = x"
  by (induction xs) auto

lemma take_rows_ok:
  assumes "rect M N a" and "list_all (\<lambda>k. - int M \<le> k \<and> k < int M) idx"
  shows "\<exists>sub. take_rows a idx = Inr sub \<and> rect (length idx) N sub"
  using assms(2)
proof (induction idx)
  case Nil
  then show ?case by (simp add: take_rows_def rect_def)
next
  case (Cons k idx)
  then obtain sub where sub: "take_rows a idx = Inr sub" "rect (length idx) N sub" by auto
  have "length a = M" using assms(1) by (rule rect_length)
  then obtain x where x: "py_index a k = Inr x" "x \<in> set a"
    using py_index_ok [of a k] Cons.prems by auto
  have "length x = N" using assms(1) x(2) by (rule rect_row)
  then show ?case using sub x by (simp add: take_rows_def rect_def)
qed


text \<open>A pass through the body of the loop raises nothing and keeps the state well-formed.\<close>

lemma iteration_ok:
  assumes lib: "lib_ok svd corrcoef M N" and td: "rect M N traindata"
    and M: "0 < M" and N: "1 < N" and i: "i < M" and ts: "length train_states = M"
    and inv: "loop_inv M N i (incl, err)"
  shows "\<exists>corr mi ma name err'.
           corrcoef (traindata @ [err]) = Inr corr \<and>
           scan corr incl [0..<length train_states] (- 1, Fin 0) = Inr (mi, ma) \<and>
           py_index train_states mi = Inr name \<and>
           snd (iteration svd corrcoef train_states traindata i (incl, err))
             = Inr (corr, insert mi incl, err') \<and>
           PrintMax mi name \<in> set (fst (iteration svd corrcoef train_states traindata i (incl, err))) \<and>
           loop_inv M N i (insert mi incl, err')"
proof -
  have len: "length traindata = M" using td by (rule rect_length)
  have lerr: "length err = N" and fin: "finite incl" and iin: "int i \<in> incl"
    and bnd: "\<And>k. k \<in> incl \<Longrightarrow> - 1 \<le> k \<and> k < int M"
    using inv by (auto simp: loop_inv_def)
  have vs: "vstack traindata err = Inr (traindata @ [err])"
    using td lerr by (simp add: vstack_def rect_def)
  have rtde: "rect (Suc M) N (traindata @ [err])" using td lerr by (simp add: rect_def)
  obtain corr where corr: "corrcoef (traindata @ [err]) = Inr corr"
    and rcorr: "rect (Suc M) (Suc M) corr"
    using lib rtde by (auto simp: lib_ok_def)
  have "corr \<noteq> []" using rcorr by (auto simp: rect_def)
  then have lastrow: "py_index corr (- 1) = Inr (last corr)" by (rule py_index_last)
  have "list_all (\<lambda>j. j < Suc M) [0..<length train_states]"
    using ts by (simp add: list_all_iff)
  then obtain mi ma where sc: "scan corr incl [0..<length train_states] (- 1, Fin 0) = Inr (mi, ma)"
    and mi: "mi = - 1 \<or> (mi \<in> int ` set [0..<length train_states] \<and> mi \<notin> incl)"
    using scan_ok [OF rcorr, of "[0..<length train_states]" incl "(- 1, Fin 0)"] by auto
  have mib: "- 1 \<le> mi \<and> mi < int M" using mi ts M by auto
  obtain name where name: "py_index train_states mi = Inr name"
    using py_index_ok [of train_states mi] mib ts M by auto
  define sel where "sel = sorted_list_of_set (insert mi incl)"
  have "finite (insert mi incl)" using fin by simp
  then have set_inc: "set sel = insert mi incl"
    unfolding sel_def by (rule set_sorted_list_of_set)
  then have "int i \<in> set sel" using iin by simp
  then have "\<exists>p. list_index sel (int i) = Inr p \<and> p < length sel \<and> sel ! p = int i"
    by (rule list_index_mem)
  then obtain p where p: "list_index sel (int i) = Inr p" "p < length sel" by auto
  have "list_all (\<lambda>k. - int M \<le> k \<and> k < int M) sel"
    using bnd mib M by (fastforce simp: list_all_iff set_inc)
  then have "\<exists>sub. take_rows traindata sel = Inr sub \<and> rect (length sel) N sub"
    by (rule take_rows_ok [OF td])
  then obtain sub where sub: "take_rows traindata sel = Inr sub"
    and rsub: "rect (length sel) N sub" by auto
  define m where "m = length sel"
  have m: "0 < m" "int p < int m" using p(2) by (auto simp: m_def)
  have rsub': "rect m N sub" using rsub by (simp add: m_def)
  then have "rect m (N - 1) (map butlast sub)" by (rule rect_map_butlast)
  then obtain f where f: "svd (map butlast sub) = Inr f" "thin_svd m (N - 1) f"
    using lib m(1) unfolding lib_ok_def by blast
  obtain u s vh where uf: "f = (u, s, vh)" by (cases f) auto
  obtain A log where A: "length A = m" "solve svd (int p) sub = (log, Inr A)"
    using solve_thin [of m N sub "int p" svd u s vh] rsub' m N f uf by auto
  define est where "est = map (\<lambda>j. dot A (col j sub)) [0..<ncols sub]"
  have est: "vecmat A sub = Inr est" unfolding est_def using rsub' A(1) by (rule vecmat_rect)
  have lest: "length est = N" using rsub' m(1) by (simp add: est_def ncols_rect)
  have sig: "py_index traindata (int i) = Inr (traindata ! i)"
    using i len by (simp add: py_index_nat)
  have lsig: "length (traindata ! i) = N" using td i by (rule rect_nth)
  define err' where "err' = map2 fsub (traindata ! i) est"
  have err': "bcast1 fsub (traindata ! i) est = Inr err'"
    using lsig lest by (simp add: bcast1_def err'_def)
  have "snd (iteration svd corrcoef train_states traindata i (incl, err))
      = Inr (corr, insert mi incl, err')"
    using p(1) sub unfolding sel_def
    by (simp add: iteration_def vs corr lastrow sc name Let_def A(2) est sig err')
  moreover have "PrintMax mi name
      \<in> set (fst (iteration svd corrcoef train_states traindata i (incl, err)))"
    using p(1) sub unfolding sel_def
    by (simp add: iteration_def vs corr lastrow sc name Let_def A(2) est sig err')
  moreover have "loop_inv M N i (insert mi incl, err')"
    using fin iin bnd mib lsig lest by (auto simp: loop_inv_def err'_def)
  ultimately show ?thesis using corr sc name by blast
qed

text \<open>
  The loop never returns: a supposed result is traced back through one more pass, which
  raises nothing.
\<close>

lemma primary_loop_diverges:
  assumes ret: "primary_loop svd corrcoef train_states traindata i out st = Some y"
  shows "\<not> (lib_ok svd corrcoef M N \<and> rect M N traindata \<and> 0 < M \<and> 1 < N \<and> i < M \<and>
            length train_states = M \<and> loop_inv M N i st)"
proof (rule primary_loop.raw_induct
    [where P = "\<lambda>svd corrcoef train_states traindata i out st y.
       \<not> (lib_ok svd corrcoef M N \<and> rect M N traindata \<and> 0 < M \<and> 1 < N \<and> i < M \<and>
          length train_states = M \<and> loop_inv M N i st)", OF _ ret], goal_cases)
  case (1 loop svd corrcoef train_states traindata i out st y)
  show ?case
  proof
    assume h: "lib_ok svd corrcoef M N \<and> rect M N traindata \<and> 0 < M \<and> 1 < N \<and> i < M \<and>
            length train_states = M \<and> loop_inv M N i st"
    obtain incl err where st: "st = (incl, err)" by (cases st) auto
    have "\<exists>corr st'. snd (iteration svd corrcoef train_states traindata i st) = Inr (corr, st') \<and>
        loop_inv M N i st'"
      using iteration_ok [of svd corrcoef M N traindata i train_states incl err] h st by auto
    then obtain corr st' where it: "snd (iteration svd corrcoef train_states traindata i st) = Inr (corr, st')"
      and inv': "loop_inv M N i st'"
      by blast
    obtain out' where "iteration svd corrcoef train_states traindata i st = (out', Inr (corr, st'))"
      using it by (cases "iteration svd corrcoef train_states traindata i st") auto
    then have "loop svd corrcoef train_states traindata i (out @ out') st' = Some y"
      using 1(2) by simp
    then show False using 1(1) h inv' by blast
  qed
qed

lemma loop_inv_initial:
  "rect M N traindata \<Longrightarrow> i < M \<Longrightarrow> loop_inv M N i ({int i}, map fneg (traindata ! i))"
  by (simp add: loop_inv_def rect_nth)

lemma loop_inv_all_rows:
  "i < M \<Longrightarrow> length err = N \<Longrightarrow> loop_inv M N i (int ` {0..<M}, err)"
  by (auto simp: loop_inv_def)

text \<open>
  Stand-ins for the two library functions, for the witness below: arrays of ones in the
  shapes of the thin factors and of the correlation matrix.
\<close>

definition two_rows :: mat where
  "two_rows = [[Fin 1, Fin 2, Fin 4], [Fin 3, Fin 1, Fin 2]]"

definition ones_svd :: svd_fn where
  "ones_svd X =
     Inr (replicate (length X) (replicate (min (length X) (ncols X)) (Fin 1)),
          replicate (min (length X) (ncols X)) (Fin 1),
          replicate (min (length X) (ncols X)) (replicate (ncols X) (Fin 1)))"

definition ones_corr :: corr_fn where
  "ones_corr a = Inr (replicate (length a) (replicate (length a) (Fin 1)))"

lemma lib_ok_ones: "lib_ok ones_svd ones_corr M N"
proof -
  have "thin_svd m (N - 1) (replicate (length X) (replicate (min (length X) (ncols X)) (Fin 1)),
          replicate (min (length X) (ncols X)) (Fin 1),
          replicate (min (length X) (ncols X)) (replicate (ncols X) (Fin 1)))"
    if "0 < m" "rect m (N - 1) X" for m X
  proof -
    have "length X = m" using that(2) by (rule rect_length)
    moreover have "ncols X = N - 1" using that(2,1) by (rule ncols_rect)
    ultimately show ?thesis by (simp add: thin_svd_def rect_def list_all_iff)
  qed
  moreover have "rect (Suc M) (Suc M) (replicate (length tde) (replicate (length tde) (Fin 1)))"
    if "rect (Suc M) N tde" for tde
    using that by (simp add: rect_def list_all_iff)
  ultimately show ?thesis by (simp add: lib_ok_def ones_svd_def ones_corr_def)
qed

text \<open>
  C4. The primary loop has no exit: on a training array of \<open>M\<close> rows and \<open>N\<close> samples
  with one name per row, and library functions that return arrays of the expected shapes,
  the loop started for the target row \<open>i\<close> never returns, neither normally nor by an
  exception. The same holds when it is entered with every row already included: there is
  no test on the included set, on the error or on the number of passes.
\<close>

theorem primary_loop_never_returns:
  assumes "lib_ok svd corrcoef M N" and "rect M N traindata" and "0 < M" and "1 < N"
    and "i < M" and "length train_states = M"
  shows "primary_loop svd corrcoef train_states traindata i out
           ({int i}, map fneg (traindata ! i)) = None \<and>
         (\<forall>err. length err = N \<longrightarrow>
            primary_loop svd corrcoef train_states traindata i out (int ` {0..<M}, err) = None)"
proof -
  have none: "primary_loop svd corrcoef train_states traindata i out st = None"
    if "loop_inv M N i st" for st
  proof (cases "primary_loop svd corrcoef train_states traindata i out st")
    case None
    then show ?thesis .
  next
    case (Some y)
    then show ?thesis using primary_loop_diverges [OF Some, of M N] assms that by blast
  qed
  show ?thesis
    using none loop_inv_initial [OF assms(2,5)] loop_inv_all_rows [OF assms(5)] by blast
qed

theorem primary_loop_never_returns_witness:
  "primary_loop ones_svd ones_corr [''p'', ''q''] two_rows 0 []
     ({int 0}, map fneg (two_rows ! 0)) = None \<and>
   primary_loop ones_svd ones_corr [''p'', ''q''] two_rows 0 []
     (int ` {0..<2}, [Fin 0, Fin 0, Fin 0]) = None"
proof -
  have r: "rect 2 3 two_rows" by (simp add: rect_def two_rows_def)
  have "primary_loop ones_svd ones_corr [''p'', ''q''] two_rows 0 []
           ({int 0}, map fneg (two_rows ! 0)) = None \<and>
         (\<forall>err. length err = 3 \<longrightarrow>
            primary_loop ones_svd ones_corr [''p'', ''q''] two_rows 0 [] (int ` {0..<2}, err) = None)"
    by (rule primary_loop_never_returns [OF lib_ok_ones r]) simp_all
  then show ?thesis by simp
qed

section \<open>The scan for the best-correlated row\<close>

lemma fgt_trans: "fgt a b \<Longrightarrow> fgt b c \<Longrightarrow> fgt a c"
  by (cases a; cases b; cases c) auto

lemma fgt_fabs_not_nan: "fgt (fabs c) m \<Longrightarrow> c \<noteq> NaN"
  by (cases c) auto

text \<open>
  What the scan returns is the pair it started from, or a row of the scan that is not
  included and whose absolute correlation to the error row is greater than the starting
  maximum.
\<close>

lemma scan_result:
  "scan corr incl js best = Inr (mi, ma) \<Longrightarrow>
   (mi, ma) = best \<or>
   (\<exists>j c. j \<in> set js \<and> mi = int j \<and> int j \<notin> incl \<and> index2 corr (- 1) (int j) = Inr c \<and>
      ma = fabs c \<and> fgt (fabs c) (snd best))"
proof (induction js arbitrary: best)
  case Nil
  then show ?case by simp
next
  case (Cons j js)
  show ?case
  proof (cases "int j \<in> incl")
    case True
    then have "scan corr incl js best = Inr (mi, ma)" using Cons.prems by simp
    then show ?thesis using Cons.IH [of best] by auto
  next
    case False
    then obtain c where c: "index2 corr (- 1) (int j) = Inr c"
      using Cons.prems by (cases "index2 corr (- 1) (int j)") auto
    show ?thesis
    proof (cases "fgt (fabs c) (snd best)")
      case True
      then have "scan corr incl js (int j, fabs c) = Inr (mi, ma)"
        using Cons.prems False c by simp
      then have "(mi, ma) = (int j, fabs c) \<or>
        (\<exists>j' c'. j' \<in> set js \<and> mi = int j' \<and> int j' \<notin> incl \<and>
           index2 corr (- 1) (int j') = Inr c' \<and> ma = fabs c' \<and> fgt (fabs c') (fabs c))"
        using Cons.IH [of "(int j, fabs c)"] by simp
      then show ?thesis
      proof
        assume "(mi, ma) = (int j, fabs c)"
        then show ?thesis using False c True by auto
      next
        assume "\<exists>j' c'. j' \<in> set js \<and> mi = int j' \<and> int j' \<notin> incl \<and>
           index2 corr (- 1) (int j') = Inr c' \<and> ma = fabs c' \<and> fgt (fabs c') (fabs c)"
        then obtain j' c' where h: "j' \<in> set js" "mi = int j'" "int j' \<notin> incl"
          "index2 corr (- 1) (int j') = Inr c'" "ma = fabs c'" "fgt (fabs c') (fabs c)"
          by blast
        have "fgt (fabs c') (snd best)" using h(6) True by (rule fgt_trans)
        then show ?thesis using h by auto
      qed
    next
      case notgt: False
      then have "scan corr incl js best = Inr (mi, ma)" using Cons.prems False c by simp
      then show ?thesis using Cons.IH [of best] by auto
    qed
  qed
qed


lemma fgt_irrefl: "\<not> fgt a a"
  by (cases a) auto

lemma fgt_below:
  "b \<noteq> NaN \<Longrightarrow> d \<noteq> NaN \<Longrightarrow> \<not> fgt d b \<Longrightarrow> fgt m b \<Longrightarrow> fgt m d"
  by (cases b; cases d; cases m) auto

lemma fgt_left_not_nan: "fgt a b \<Longrightarrow> a \<noteq> NaN"
  by (cases a) auto

lemma fabs_nan: "fabs d = NaN \<longleftrightarrow> d = NaN"
  by (cases d) auto

text \<open>A scan that returns the pair it started from met no row that beats it.\<close>

lemma scan_unchanged:
  "scan corr incl js best = Inr best \<Longrightarrow>
   list_all (\<lambda>k. int k \<in> incl \<or>
      (\<exists>d. index2 corr (- 1) (int k) = Inr d \<and> \<not> fgt (fabs d) (snd best))) js"
proof (induction js)
  case Nil
  then show ?case by simp
next
  case (Cons k ks)
  show ?case
  proof (cases "int k \<in> incl")
    case True
    then show ?thesis using Cons by simp
  next
    case False
    then obtain d where d: "index2 corr (- 1) (int k) = Inr d"
      using Cons.prems by (cases "index2 corr (- 1) (int k)") auto
    show ?thesis
    proof (cases "fgt (fabs d) (snd best)")
      case True
      then have s: "scan corr incl ks (int k, fabs d) = Inr (fst best, snd best)"
        using Cons.prems False d by simp
      have "(fst best, snd best) = (int k, fabs d) \<or>
        (\<exists>j c. j \<in> set ks \<and> fst best = int j \<and> int j \<notin> incl \<and>
           index2 corr (- 1) (int j) = Inr c \<and> snd best = fabs c \<and>
           fgt (fabs c) (snd (int k, fabs d)))"
        using s by (rule scan_result)
      then have "fgt (snd best) (snd best)"
        using True fgt_trans [of "snd best" "fabs d" "snd best"] by auto
      then show ?thesis using fgt_irrefl by blast
    next
      case notgt: False
      then have "scan corr incl ks best = Inr best" using Cons.prems False d by simp
      then show ?thesis using Cons.IH d notgt by simp
    qed
  qed
qed

text \<open>
  When the scan takes a row, it is the first row of the greatest absolute correlation:
  no later row of the scan beats it, and every earlier row that is not included has a
  smaller absolute correlation or a \<^verbatim>\<open>nan\<close>.
\<close>

lemma scan_picks_first_maximum:
  assumes "scan corr incl js best = Inr (mi, ma)" and "(mi, ma) \<noteq> best" and "snd best \<noteq> NaN"
  shows "\<exists>pre j post c. js = pre @ j # post \<and> mi = int j \<and> int j \<notin> incl \<and>
           index2 corr (- 1) (int j) = Inr c \<and> ma = fabs c \<and> fgt ma (snd best) \<and>
           list_all (\<lambda>k. int k \<in> incl \<or>
              (\<exists>d. index2 corr (- 1) (int k) = Inr d \<and> (d = NaN \<or> fgt ma (fabs d)))) pre \<and>
           list_all (\<lambda>k. int k \<in> incl \<or>
              (\<exists>d. index2 corr (- 1) (int k) = Inr d \<and> \<not> fgt (fabs d) ma)) post"
  using assms
proof (induction js arbitrary: best)
  case Nil
  then show ?case by simp
next
  case (Cons k ks)
  show ?case
  proof (cases "int k \<in> incl")
    case True
    then have "scan corr incl ks best = Inr (mi, ma)" using Cons.prems(1) by simp
    then obtain pre j post c where h: "ks = pre @ j # post" "mi = int j" "int j \<notin> incl"
      "index2 corr (- 1) (int j) = Inr c" "ma = fabs c" "fgt ma (snd best)"
      "list_all (\<lambda>k. int k \<in> incl \<or>
         (\<exists>d. index2 corr (- 1) (int k) = Inr d \<and> (d = NaN \<or> fgt ma (fabs d)))) pre"
      "list_all (\<lambda>k. int k \<in> incl \<or>
         (\<exists>d. index2 corr (- 1) (int k) = Inr d \<and> \<not> fgt (fabs d) ma)) post"
      using Cons.IH [of best] Cons.prems(2,3) by blast
    have "k # ks = (k # pre) @ j # post" using h(1) by simp
    moreover have "list_all (\<lambda>k. int k \<in> incl \<or>
         (\<exists>d. index2 corr (- 1) (int k) = Inr d \<and> (d = NaN \<or> fgt ma (fabs d)))) (k # pre)"
      using True h(7) by simp
    ultimately show ?thesis using h(2-6,8) by blast
  next
    case False
    then obtain d where d: "index2 corr (- 1) (int k) = Inr d"
      using Cons.prems(1) by (cases "index2 corr (- 1) (int k)") auto
    show ?thesis
    proof (cases "fgt (fabs d) (snd best)")
      case True
      then have s: "scan corr incl ks (int k, fabs d) = Inr (mi, ma)"
        using Cons.prems(1) False d by simp
      have dn: "fabs d \<noteq> NaN" using True by (rule fgt_left_not_nan)
      show ?thesis
      proof (cases "(mi, ma) = (int k, fabs d)")
        case same: True
        then have "scan corr incl ks (int k, fabs d) = Inr (int k, fabs d)" using s by simp
        then have "list_all (\<lambda>j. int j \<in> incl \<or>
            (\<exists>e. index2 corr (- 1) (int j) = Inr e \<and> \<not> fgt (fabs e) (snd (int k, fabs d)))) ks"
          by (rule scan_unchanged)
        then have "list_all (\<lambda>j. int j \<in> incl \<or>
            (\<exists>e. index2 corr (- 1) (int j) = Inr e \<and> \<not> fgt (fabs e) ma)) ks"
          using same by simp
        moreover have "k # ks = [] @ k # ks" by simp
        ultimately show ?thesis using same False d True by fastforce
      next
        case other: False
        obtain pre j post c where h: "ks = pre @ j # post" "mi = int j" "int j \<notin> incl"
          "index2 corr (- 1) (int j) = Inr c" "ma = fabs c" "fgt ma (fabs d)"
          "list_all (\<lambda>k. int k \<in> incl \<or>
             (\<exists>d. index2 corr (- 1) (int k) = Inr d \<and> (d = NaN \<or> fgt ma (fabs d)))) pre"
          "list_all (\<lambda>k. int k \<in> incl \<or>
             (\<exists>d. index2 corr (- 1) (int k) = Inr d \<and> \<not> fgt (fabs d) ma)) post"
          using Cons.IH [OF s other] dn by auto
        have "k # ks = (k # pre) @ j # post" using h(1) by simp
        moreover have "list_all (\<lambda>k. int k \<in> incl \<or>
            (\<exists>d. index2 corr (- 1) (int k) = Inr d \<and> (d = NaN \<or> fgt ma (fabs d)))) (k # pre)"
          using h(6,7) d by simp
        moreover have "fgt ma (snd best)" using h(6) True by (rule fgt_trans)
        ultimately show ?thesis using h(2-5,8) by blast
      qed
    next
      case notgt: False
      then have s: "scan corr incl ks best = Inr (mi, ma)" using Cons.prems(1) False d by simp
      obtain pre j post c where h: "ks = pre @ j # post" "mi = int j" "int j \<notin> incl"
        "index2 corr (- 1) (int j) = Inr c" "ma = fabs c" "fgt ma (snd best)"
        "list_all (\<lambda>k. int k \<in> incl \<or>
           (\<exists>d. index2 corr (- 1) (int k) = Inr d \<and> (d = NaN \<or> fgt ma (fabs d)))) pre"
        "list_all (\<lambda>k. int k \<in> incl \<or>
           (\<exists>d. index2 corr (- 1) (int k) = Inr d \<and> \<not> fgt (fabs d) ma)) post"
        using Cons.IH [OF s Cons.prems(2,3)] by blast
      have "d = NaN \<or> fgt ma (fabs d)"
        using fgt_below [of "snd best" "fabs d" ma] Cons.prems(3) notgt h(6) by (auto simp: fabs_nan)
      then have "list_all (\<lambda>k. int k \<in> incl \<or>
          (\<exists>d. index2 corr (- 1) (int k) = Inr d \<and> (d = NaN \<or> fgt ma (fabs d)))) (k # pre)"
        using h(7) d by simp
      moreover have "k # ks = (k # pre) @ j # post" using h(1) by simp
      ultimately show ?thesis using h(2-6,8) by blast
    qed
  qed
qed

subsection \<open>The sentinel\<close>



lemma collect_length: "collect rs = Inr xs \<Longrightarrow> length xs = length rs"
  by (induction rs arbitrary: xs) (auto split: sum.splits)


subsection \<open>Three channels with zero correlation\<close>

text \<open>
  Three channels \<open>p\<close>, \<open>a\<close>, \<open>b\<close> of five samples, each of mean zero and orthogonal to
  the other two, so that their Pearson correlations are exactly zero. \<open>ortho_corr\<close> is the
  correlation matrix of the three channels and the initial error row \<open>-p\<close>;
  \<open>ortho_svd\<close> gives the thin factors of the previous-state block of the rows \<open>b\<close>, \<open>p\<close>.
\<close>

definition ortho_traindata :: mat where
  "ortho_traindata =
     [[Fin 1, Fin (- 1), Fin 1, Fin (- 1), Fin 0],
      [Fin 1, Fin 1, Fin (- 1), Fin (- 1), Fin 0],
      [Fin 1, Fin (- 1), Fin (- 1), Fin 1, Fin 0]]"

definition ortho_corr :: mat where
  "ortho_corr =
     [[Fin 1, Fin 0, Fin 0, Fin (- 1)],
      [Fin 0, Fin 1, Fin 0, Fin 0],
      [Fin 0, Fin 0, Fin 1, Fin 0],
      [Fin (- 1), Fin 0, Fin 0, Fin 1]]"

definition ortho_corrcoef :: corr_fn where
  "ortho_corrcoef tde =
     (if tde = ortho_traindata @ [[Fin (- 1), Fin 1, Fin (- 1), Fin 1, Fin 0]] then Inr ortho_corr
      else Inl LibraryError)"

definition ortho_svd :: svd_fn where
  "ortho_svd X =
     (if X = [[Fin 1, Fin (- 1), Fin (- 1), Fin 1], [Fin 1, Fin (- 1), Fin 1, Fin (- 1)]]
      then Inr (id2, [Fin 2, Fin 2],
                [[Fin (1 / 2), Fin (- 1 / 2), Fin (- 1 / 2), Fin (1 / 2)],
                 [Fin (1 / 2), Fin (- 1 / 2), Fin (1 / 2), Fin (- 1 / 2)]])
      else Inl LibraryError)"

text \<open>The first pass of the loop for the target \<open>p\<close>, evaluated.\<close>

lemma iteration_ortho:
  "(case iteration ortho_svd ortho_corrcoef [''p'', ''a'', ''b''] ortho_traindata 0
          ({0}, map fneg (ortho_traindata ! 0)) of
      (out, r) \<Rightarrow>
        r = Inr (ortho_corr, {- 1, 0}, [Fin 2, Fin (- 2), Fin (3 / 2), Fin (- 3 / 2), Fin 0]) \<and>
        PrintMax (- 1) ''b'' \<in> set out)"
  by (simp add: iteration_def ortho_corrcoef_def ortho_traindata_def ortho_corr_def solve_def
      ortho_svd_def id2_def array_defs Let_def fsub_def ret_def)

text \<open>
  C2, at an input where the code departs from it. (Where some row that is not included
  has an absolute correlation greater than zero, the pass adds the first row of the
  greatest absolute correlation, as \<open>scan_picks_first_maximum\<close> shows.) The rows \<open>a\<close> and \<open>b\<close> are not
  included and both have absolute correlation 0 with the error row: the row the claim
  names is \<open>a\<close>, the first of the two. The scan starts from \<open>max_abs = 0\<close> and compares
  with \<open>>\<close>, so it keeps \<open>max_index = -1\<close>; the pass prints the name of the last row,
  adds \<open>-1\<close> to the included set and goes on.
\<close>

theorem iteration_adds_sentinel_on_zero_correlation:
  "snd (iteration ortho_svd ortho_corrcoef [''p'', ''a'', ''b''] ortho_traindata 0
          ({0}, map fneg (ortho_traindata ! 0))) =
     Inr (ortho_corr, {- 1, 0}, [Fin 2, Fin (- 2), Fin (3 / 2), Fin (- 3 / 2), Fin 0]) \<and>
   PrintMax (- 1) ''b'' \<in> set (fst (iteration ortho_svd ortho_corrcoef [''p'', ''a'', ''b'']
          ortho_traindata 0 ({0}, map fneg (ortho_traindata ! 0))))"
  using iteration_ortho by (simp add: case_prod_beta)




subsection \<open>A channel of zero variance\<close>

text \<open>
  Two channels of five samples, the second one constant. \<^verbatim>\<open>np.corrcoef\<close> divides
  the covariances by the standard deviations, so every correlation with the constant
  channel is \<^verbatim>\<open>0/0 = nan\<close>: \<open>const_corr_error\<close> is the correlation matrix of the
  two channels and the initial error row \<open>-p\<close>. \<open>const_svd\<close> gives the thin factors of
  the previous-state block of the rows \<open>q\<close>, \<open>p\<close>, which are orthogonal over the first
  four samples.
\<close>

definition const_traindata :: mat where
  "const_traindata =
     [[Fin 1, Fin (- 1), Fin 1, Fin (- 1), Fin 0],
      [Fin 1, Fin 1, Fin 1, Fin 1, Fin 1]]"

definition const_corr_error :: mat where
  "const_corr_error = [[Fin 1, NaN, Fin (- 1)], [NaN, NaN, NaN], [Fin (- 1), NaN, Fin 1]]"

definition const_corrcoef :: corr_fn where
  "const_corrcoef tde =
     (if tde = const_traindata @ [[Fin (- 1), Fin 1, Fin (- 1), Fin 1, Fin 0]]
      then Inr const_corr_error else Inl LibraryError)"

definition const_svd :: svd_fn where
  "const_svd X =
     (if X = [[Fin 1, Fin 1, Fin 1, Fin 1], [Fin 1, Fin (- 1), Fin 1, Fin (- 1)]]
      then Inr (id2, [Fin 2, Fin 2],
                [[Fin (1 / 2), Fin (1 / 2), Fin (1 / 2), Fin (1 / 2)],
                 [Fin (1 / 2), Fin (- 1 / 2), Fin (1 / 2), Fin (- 1 / 2)]])
      else Inl LibraryError)"

text \<open>
  By its comparison the scan never takes a row whose correlation to the error row is
  \<^verbatim>\<open>nan\<close>: what it returns is the sentinel \<open>-1\<close>, or a row that is not included and
  whose absolute correlation is a number greater than zero.
\<close>

lemma scan_never_picks_nan:
  assumes "scan corr incl js (- 1, Fin 0) = Inr (mi, ma)"
  shows "mi = - 1 \<or>
         (\<exists>j c. j \<in> set js \<and> mi = int j \<and> int j \<notin> incl \<and> index2 corr (- 1) mi = Inr c \<and>
            c \<noteq> NaN \<and> fgt (fabs c) (Fin 0) \<and> ma = fabs c)"
proof -
  have "(mi, ma) = (- 1, Fin 0) \<or>
   (\<exists>j c. j \<in> set js \<and> mi = int j \<and> int j \<notin> incl \<and> index2 corr (- 1) (int j) = Inr c \<and>
      ma = fabs c \<and> fgt (fabs c) (snd (- 1 :: int, Fin 0)))"
    using assms by (rule scan_result)
  then show ?thesis using fgt_fabs_not_nan by fastforce
qed

text \<open>The first pass of the loop for the target \<open>p\<close>, evaluated.\<close>

lemma iteration_const:
  "(case iteration const_svd const_corrcoef [''p'', ''q''] const_traindata 0
          ({0}, map fneg (const_traindata ! 0)) of
      (out, r) \<Rightarrow>
        r = Inr (const_corr_error, {- 1, 0},
                 [Fin 2, Fin (- 3 / 2), Fin 2, Fin (- 3 / 2), Fin (1 / 4)]) \<and>
        PrintVec [] [Fin (- 1), NaN, Fin 1] \<in> set out \<and>
        PrintMax (- 1) ''q'' \<in> set out \<and>
        PrintMat ''X:'' [[Fin 1, Fin 1, Fin 1, Fin 1], [Fin 1, Fin (- 1), Fin 1, Fin (- 1)]]
          \<in> set out)"
  by (simp add: iteration_def const_corrcoef_def const_traindata_def const_corr_error_def
      solve_def const_svd_def id2_def array_defs Let_def fsub_def ret_def)

text \<open>
  C6, at an input where the code departs from it. The channel \<open>q\<close> has zero variance
  and is the last row. Its correlation to the error row is \<^verbatim>\<open>nan\<close>, so the scan
  takes no row and keeps \<open>max_index = -1\<close>; the pass then prints \<open>q\<close>, the name at
  index \<open>-1\<close>, as the parameter of the best correlation, adds \<open>-1\<close> to the included
  set and fits on the rows \<open>q\<close>, \<open>p\<close>. Nothing is raised.
\<close>

theorem iteration_selects_zero_variance_row:
  "snd (iteration const_svd const_corrcoef [''p'', ''q''] const_traindata 0
          ({0}, map fneg (const_traindata ! 0))) =
     Inr (const_corr_error, {- 1, 0},
          [Fin 2, Fin (- 3 / 2), Fin 2, Fin (- 3 / 2), Fin (1 / 4)]) \<and>
   PrintVec [] [Fin (- 1), NaN, Fin 1]
     \<in> set (fst (iteration const_svd const_corrcoef [''p'', ''q''] const_traindata 0
          ({0}, map fneg (const_traindata ! 0)))) \<and>
   PrintMax (- 1) ''q''
     \<in> set (fst (iteration const_svd const_corrcoef [''p'', ''q''] const_traindata 0
          ({0}, map fneg (const_traindata ! 0)))) \<and>
   PrintMat ''X:'' [[Fin 1, Fin 1, Fin 1, Fin 1], [Fin 1, Fin (- 1), Fin 1, Fin (- 1)]]
     \<in> set (fst (iteration const_svd const_corrcoef [''p'', ''q''] const_traindata 0
          ({0}, map fneg (const_traindata ! 0))))"
  using iteration_const by (simp add: case_prod_beta)

section \<open>The condition loop: failures\<close>

lemma bind_opt_Inr [simp]:
  "bind_opt (Some (out, Inr x)) f =
     (case f x of None \<Rightarrow> None | Some (out', r) \<Rightarrow> Some (out @ out', r))"
  by (simp add: bind_opt_def)

lemma bind_opt_Inl [simp]: "bind_opt (Some (out, Inl e)) f = Some (out, Inl e)"
  by (simp add: bind_opt_def)

lemma bind_opt_None [simp]: "bind_opt None f = None"
  by (simp add: bind_opt_def)

lemma bind_opt_emit [simp]:
  "bind_opt (Some (emit out)) f =
     (case f () of None \<Rightarrow> None | Some (out', r) \<Rightarrow> Some (out @ out', r))"
  by (simp add: emit_def)

lemma bind_opt_lift_Inr [simp]: "bind_opt (Some (lift (Inr x))) f = f x"
  by (cases "f x") (auto simp: lift_def)

lemma bind_opt_lift_Inl [simp]: "bind_opt (Some (lift (Inl e))) f = Some ([], Inl e)"
  by (simp add: lift_def)

text \<open>
  Two flight conditions and what the builder left for them: three state vectors of two
  states each, the second state constant. \<open>failing_corrcoef\<close> is a correlation function
  that fails.
\<close>

definition two_conditions :: "flight_condition list" where
  "two_conditions = [[(''flaps'', 0)], [(''flaps'', 1 / 2)]]"







section \<open>The model record during a run\<close>

text \<open>
  A run of the condition loop need not end: the report of a condition enters a loop
  without exit. To look at the variables of the script while it runs, the same code is
  run until it ends, raises, or has made \<open>n\<close> passes through the body of
  \<^verbatim>\<open>while True\<close> in a fit; what is returned is what has been printed and how far
  the run has come. The loop has no exit, so a run bounded in this way does not reach the
  code after it.
\<close>

datatype progress = Ended | Raised error | Running

fun primary_loop_for ::
  "nat \<Rightarrow> svd_fn \<Rightarrow> corr_fn \<Rightarrow> string list \<Rightarrow> mat \<Rightarrow> nat \<Rightarrow> event list \<Rightarrow> int set \<times> vec \<Rightarrow>
   event list \<times> progress"
where
  "primary_loop_for 0 svd corrcoef train_states traindata i out st = (out, Running)"
| "primary_loop_for (Suc n) svd corrcoef train_states traindata i out st =
     (case iteration svd corrcoef train_states traindata i st of
        (out', Inl e) \<Rightarrow> (out @ out', Raised e)
      | (out', Inr (corr, st')) \<Rightarrow>
          primary_loop_for n svd corrcoef train_states traindata i (out @ out') st')"

definition fit_state_for ::
  "nat \<Rightarrow> svd_fn \<Rightarrow> corr_fn \<Rightarrow> string list \<Rightarrow> mat \<Rightarrow> string \<Rightarrow> event list \<times> progress"
where
  "fit_state_for n svd corrcoef train_states traindata s =
     (case list_index train_states s of
        Inl e \<Rightarrow> ([], Raised e)
      | Inr i \<Rightarrow>
          (case py_index traindata (int i) of
             Inl e \<Rightarrow> ([], Raised e)
           | Inr signal \<Rightarrow>
               primary_loop_for n svd corrcoef train_states traindata i
                 [PrintVec [] (map fneg signal)] ({int i}, map fneg signal)))"

fun for_fit_states_for ::
  "nat \<Rightarrow> svd_fn \<Rightarrow> corr_fn \<Rightarrow> string list \<Rightarrow> mat \<Rightarrow> string list \<Rightarrow> event list \<times> progress"
where
  "for_fit_states_for n svd corrcoef train_states traindata [] = ([], Ended)"
| "for_fit_states_for n svd corrcoef train_states traindata (s # ss) =
     (case fit_state_for n svd corrcoef train_states traindata s of
        (out, p) \<Rightarrow>
          if p = Ended
          then (case for_fit_states_for n svd corrcoef train_states traindata ss of
                  (out', p') \<Rightarrow> (out @ out', p'))
          else (out, p))"

definition correlation_report_for ::
  "nat \<Rightarrow> svd_fn \<Rightarrow> corr_fn \<Rightarrow> string list \<Rightarrow> mat \<Rightarrow> string list \<Rightarrow> event list \<times> progress"
where
  "correlation_report_for n svd corrcoef train_states traindata fit_states =
     (case corrcoef traindata of
        Inl e \<Rightarrow>
          ([Print ''test pearson correlation coefficients:'', PrintNames train_states], Raised e)
      | Inr corr \<Rightarrow>
          (case for_fit_states_for n svd corrcoef train_states traindata fit_states of
             (out, p) \<Rightarrow>
               ([Print ''test pearson correlation coefficients:'', PrintNames train_states,
                 PrintMat [] corr] @ out, p)))"

text \<open>
  Lines 244 to 253, with the variables of the script at the moment the run is left. The
  \<^verbatim>\<open>sysid\<close> of a condition is stored (line 251) before its report is called.
\<close>

fun condition_loop_for ::
  "nat \<Rightarrow> svd_fn \<Rightarrow> corr_fn \<Rightarrow> string list \<Rightarrow> string list \<Rightarrow> cond_entry list \<Rightarrow>
   (nat \<times> flight_condition) list \<Rightarrow> script_state \<Rightarrow> script_state \<times> event list \<times> progress"
where
  "condition_loop_for n svd corrcoef train_states output_states cond_list [] st = (st, [], Ended)"
| "condition_loop_for n svd corrcoef train_states output_states cond_list ((i, cond) # rest) st =
     (let condition_dict = \<lparr>condition = cond\<rparr> in
      case py_index cond_list (int i) of
        Inl e \<Rightarrow> (st, [PrintCond i cond], Raised e)
      | Inr entry \<Rightarrow>
          (let traindata = mat_T (traindata_list entry);
               st' = st\<lparr>sysid_set := sysid_set st @ [i]\<rparr>
           in
           case correlation_report_for n svd corrcoef train_states traindata output_states of
             (out, p) \<Rightarrow>
               if p = Ended
               then (case condition_loop_for n svd corrcoef train_states output_states cond_list
                            rest st' of
                       (st'', out', p') \<Rightarrow> (st'', PrintCond i cond # out @ out', p'))
               else (st', PrintCond i cond # out, p)))"

text \<open>Lines 109 to 114 and 244 to 253: \<^verbatim>\<open>root_dict\<close> is built, then the loop runs.\<close>

definition evaluate_for ::
  "nat \<Rightarrow> svd_fn \<Rightarrow> corr_fn \<Rightarrow> real \<Rightarrow> nat \<Rightarrow> nat \<Rightarrow> string list \<Rightarrow> string list \<Rightarrow> cond_entry list \<Rightarrow>
   flight_condition list \<Rightarrow> script_state \<times> event list \<times> progress"
where
  "evaluate_for n svd corrcoef step n_output n_state train_states output_states cond_list conds =
     condition_loop_for n svd corrcoef train_states output_states cond_list (enumerate 0 conds)
       \<lparr>root_dict = \<lparr>dt = step, rows = n_output, cols = n_state, conditions = []\<rparr>,
        sysid_set = []\<rparr>"

subsection \<open>Agreement with the unbounded run\<close>

lemma primary_loop_for_progress:
  "snd (primary_loop_for n svd corrcoef train_states traindata i out st) \<noteq> Ended"
proof (induction n arbitrary: out st)
  case 0
  then show ?case by simp
next
  case (Suc n)
  obtain out' r where it: "iteration svd corrcoef train_states traindata i st = (out', r)"
    by (cases "iteration svd corrcoef train_states traindata i st") auto
  show ?case
  proof (cases r)
    case (Inl e)
    then show ?thesis using it by simp
  next
    case (Inr v)
    obtain corr st' where "v = (corr, st')" by (cases v) auto
    then show ?thesis using it Inr Suc.IH [of "out @ out'" st'] by simp
  qed
qed

lemma primary_loop_for_raised:
  "primary_loop_for n svd corrcoef train_states traindata i out st = (out1, Raised e) \<Longrightarrow>
   primary_loop svd corrcoef train_states traindata i out st = Some (out1, Inl e)"
proof (induction n arbitrary: out st)
  case 0
  then show ?case by simp
next
  case (Suc n)
  obtain out' r where it: "iteration svd corrcoef train_states traindata i st = (out', r)"
    by (cases "iteration svd corrcoef train_states traindata i st") auto
  show ?case
  proof (cases r)
    case (Inl e')
    then show ?thesis using it Suc.prems by (subst primary_loop.simps) simp
  next
    case (Inr v)
    obtain corr st' where v: "v = (corr, st')" by (cases v) auto
    then have "primary_loop_for n svd corrcoef train_states traindata i (out @ out') st'
        = (out1, Raised e)"
      using it Inr Suc.prems by simp
    then have "primary_loop svd corrcoef train_states traindata i (out @ out') st'
        = Some (out1, Inl e)"
      by (rule Suc.IH)
    then show ?thesis using it Inr v by (subst primary_loop.simps) simp
  qed
qed

lemma fit_state_for_progress:
  "snd (fit_state_for n svd corrcoef train_states traindata s) \<noteq> Ended"
  by (simp add: fit_state_for_def primary_loop_for_progress split: sum.splits)

lemma fit_state_for_raised:
  assumes "fit_state_for n svd corrcoef train_states traindata s = (out, Raised e)"
  shows "fit_state svd corrcoef train_states traindata s = Some (out, Inl e)"
proof (cases "list_index train_states s")
  case (Inl e')
  then show ?thesis using assms by (simp add: fit_state_for_def fit_state_def)
next
  case i: (Inr i)
  show ?thesis
  proof (cases "py_index traindata (int i)")
    case (Inl e')
    then show ?thesis using assms i by (simp add: fit_state_for_def fit_state_def)
  next
    case (Inr signal)
    then have "primary_loop_for n svd corrcoef train_states traindata i
        [PrintVec [] (map fneg signal)] ({int i}, map fneg signal) = (out, Raised e)"
      using assms i by (simp add: fit_state_for_def)
    then have "primary_loop svd corrcoef train_states traindata i
        [PrintVec [] (map fneg signal)] ({int i}, map fneg signal) = Some (out, Inl e)"
      by (rule primary_loop_for_raised)
    then show ?thesis using i Inr by (simp add: fit_state_def Let_def)
  qed
qed

lemma for_fit_states_for_ended:
  assumes a: "for_fit_states_for n svd corrcoef train_states traindata ss = (out, Ended)"
  shows "ss = [] \<and> out = []"
proof (cases ss)
  case Nil
  then show ?thesis using a by simp
next
  case (Cons s rest)
  obtain o1 p where f: "fit_state_for n svd corrcoef train_states traindata s = (o1, p)"
    by (cases "fit_state_for n svd corrcoef train_states traindata s") auto
  then have "p \<noteq> Ended" using fit_state_for_progress [of n svd corrcoef train_states traindata s]
    by simp
  then show ?thesis using a Cons f by simp
qed

lemma for_fit_states_for_raised:
  assumes a: "for_fit_states_for n svd corrcoef train_states traindata ss = (out, Raised e)"
  shows "for_fit_states svd corrcoef train_states traindata ss = Some (out, Inl e)"
proof (cases ss)
  case Nil
  then show ?thesis using a by simp
next
  case (Cons s rest)
  obtain o1 p where f: "fit_state_for n svd corrcoef train_states traindata s = (o1, p)"
    by (cases "fit_state_for n svd corrcoef train_states traindata s") auto
  then have "p \<noteq> Ended" using fit_state_for_progress [of n svd corrcoef train_states traindata s]
    by simp
  then have "fit_state_for n svd corrcoef train_states traindata s = (out, Raised e)"
    using a Cons f by simp
  then have "fit_state svd corrcoef train_states traindata s = Some (out, Inl e)"
    by (rule fit_state_for_raised)
  then show ?thesis using Cons by simp
qed

lemma correlation_report_for_ended:
  assumes "correlation_report_for n svd corrcoef train_states traindata fit_states = (out, Ended)"
  shows "correlation_report_3 svd corrcoef train_states traindata fit_states = Some (out, Inr ()) \<and>
         fit_states = []"
proof (cases "corrcoef traindata")
  case (Inl e)
  then show ?thesis using assms by (simp add: correlation_report_for_def)
next
  case (Inr corr)
  obtain o1 p where f: "for_fit_states_for n svd corrcoef train_states traindata fit_states = (o1, p)"
    by (cases "for_fit_states_for n svd corrcoef train_states traindata fit_states") auto
  then have p: "p = Ended" and out: "out = [Print ''test pearson correlation coefficients:'',
      PrintNames train_states, PrintMat [] corr] @ o1"
    using assms Inr by (auto simp: correlation_report_for_def)
  have "fit_states = [] \<and> o1 = []" using f p for_fit_states_for_ended by blast
  then show ?thesis using Inr out by (simp add: correlation_report_3_def ret_def)
qed

lemma correlation_report_for_raised:
  assumes "correlation_report_for n svd corrcoef train_states traindata fit_states
             = (out, Raised e)"
  shows "correlation_report_3 svd corrcoef train_states traindata fit_states = Some (out, Inl e)"
proof (cases "corrcoef traindata")
  case (Inl e')
  then show ?thesis using assms by (simp add: correlation_report_for_def correlation_report_3_def)
next
  case (Inr corr)
  obtain o1 p where f: "for_fit_states_for n svd corrcoef train_states traindata fit_states = (o1, p)"
    by (cases "for_fit_states_for n svd corrcoef train_states traindata fit_states") auto
  then have p: "p = Raised e" and out: "out = [Print ''test pearson correlation coefficients:'',
      PrintNames train_states, PrintMat [] corr] @ o1"
    using assms Inr by (auto simp: correlation_report_for_def)
  have "for_fit_states svd corrcoef train_states traindata fit_states = Some (o1, Inl e)"
    using f p for_fit_states_for_raised by blast
  then show ?thesis using Inr out by (simp add: correlation_report_3_def)
qed

text \<open>
  A bounded run that has ended or raised is the run of the script: the unbounded model
  gives the same prints and the same outcome.
\<close>

lemma condition_loop_for_agrees:
  "condition_loop_for n svd corrcoef train_states output_states cond_list conds st = (st1, out, p)
   \<Longrightarrow>
   (p = Ended \<longrightarrow>
      condition_loop svd corrcoef train_states output_states cond_list conds st
        = Some (out, Inr st1)) \<and>
   (\<forall>e. p = Raised e \<longrightarrow>
      condition_loop svd corrcoef train_states output_states cond_list conds st
        = Some (out, Inl e))"
proof (induction conds arbitrary: st st1 out p)
  case Nil
  then show ?case by (auto simp: ret_def)
next
  case (Cons c conds)
  obtain k cond where c: "c = (k, cond)" by (cases c) auto
  show ?case
  proof (cases "py_index cond_list (int k)")
    case (Inl e)
    then show ?thesis using Cons.prems c by (auto simp: Let_def)
  next
    case (Inr entry)
    define st' where "st' = st\<lparr>sysid_set := sysid_set st @ [k]\<rparr>"
    obtain o1 p1 where r: "correlation_report_for n svd corrcoef train_states
        (mat_T (traindata_list entry)) output_states = (o1, p1)"
      by (cases "correlation_report_for n svd corrcoef train_states
        (mat_T (traindata_list entry)) output_states") auto
    show ?thesis
    proof (cases "p1 = Ended")
      case True
      obtain st2 o2 p2 where rest: "condition_loop_for n svd corrcoef train_states output_states
          cond_list conds st' = (st2, o2, p2)"
        by (cases "condition_loop_for n svd corrcoef train_states output_states
          cond_list conds st'") auto
      have res: "st1 = st2" "out = PrintCond k cond # o1 @ o2" "p = p2"
        using Cons.prems c Inr r True rest by (auto simp: Let_def st'_def)
      have rep: "correlation_report_3 svd corrcoef train_states (mat_T (traindata_list entry))
          output_states = Some (o1, Inr ())"
        using r True correlation_report_for_ended by blast
      have ih: "(p2 = Ended \<longrightarrow>
          condition_loop svd corrcoef train_states output_states cond_list conds st'
            = Some (o2, Inr st2)) \<and>
        (\<forall>e. p2 = Raised e \<longrightarrow>
          condition_loop svd corrcoef train_states output_states cond_list conds st'
            = Some (o2, Inl e))"
        using rest by (rule Cons.IH)
      show ?thesis using c Inr rep ih res by (auto simp: Let_def st'_def)
    next
      case False
      have res: "st1 = st'" "out = PrintCond k cond # o1" "p = p1"
        using Cons.prems c Inr r False by (auto simp: Let_def st'_def)
      have "correlation_report_3 svd corrcoef train_states (mat_T (traindata_list entry))
          output_states = Some (o1, Inl e)" if "p1 = Raised e" for e
        using r that correlation_report_for_raised by blast
      then show ?thesis using c Inr res False by (auto simp: Let_def)
    qed
  qed
qed

subsection \<open>The record is never filled\<close>

lemma condition_loop_for_root_dict:
  "root_dict (fst (condition_loop_for n svd corrcoef train_states output_states cond_list conds st))
     = root_dict st"
proof (induction conds arbitrary: st)
  case Nil
  then show ?case by simp
next
  case (Cons c conds)
  obtain k cond where c: "c = (k, cond)" by (cases c) auto
  show ?case
  proof (cases "py_index cond_list (int k)")
    case (Inl e)
    then show ?thesis using c by (simp add: Let_def)
  next
    case (Inr entry)
    define st' where "st' = st\<lparr>sysid_set := sysid_set st @ [k]\<rparr>"
    obtain o1 p1 where r: "correlation_report_for n svd corrcoef train_states
        (mat_T (traindata_list entry)) output_states = (o1, p1)"
      by (cases "correlation_report_for n svd corrcoef train_states
        (mat_T (traindata_list entry)) output_states") auto
    obtain st2 o2 p2 where rest: "condition_loop_for n svd corrcoef train_states output_states
        cond_list conds st' = (st2, o2, p2)"
      by (cases "condition_loop_for n svd corrcoef train_states output_states
        cond_list conds st'") auto
    have "root_dict (fst (condition_loop_for n svd corrcoef train_states output_states cond_list
        conds st')) = root_dict st'"
      by (rule Cons.IH)
    then have "root_dict st2 = root_dict st" using rest by (simp add: st'_def)
    then show ?thesis using c Inr r rest by (simp add: Let_def st'_def)
  qed
qed

lemma condition_loop_for_progress:
  "output_states \<noteq> [] \<Longrightarrow> conds \<noteq> [] \<Longrightarrow>
   snd (snd (condition_loop_for n svd corrcoef train_states output_states cond_list conds st))
     \<noteq> Ended"
proof (cases conds)
  case Nil
  assume "conds \<noteq> []"
  then show ?thesis using Nil by simp
next
  case (Cons c rest)
  assume os: "output_states \<noteq> []"
  obtain k cond where c: "c = (k, cond)" by (cases c) auto
  show ?thesis
  proof (cases "py_index cond_list (int k)")
    case (Inl e)
    then show ?thesis using Cons c by (simp add: Let_def)
  next
    case (Inr entry)
    obtain o1 p1 where r: "correlation_report_for n svd corrcoef train_states
        (mat_T (traindata_list entry)) output_states = (o1, p1)"
      by (cases "correlation_report_for n svd corrcoef train_states
        (mat_T (traindata_list entry)) output_states") auto
    have "p1 \<noteq> Ended" using r os correlation_report_for_ended by blast
    then show ?thesis using Cons c Inr r by (simp add: Let_def)
  qed
qed

text \<open>
  A run the script can make: the target \<open>p\<close> of the listing, two flight conditions, the
  three orthogonal channels for each of them.
\<close>

definition ortho_entries :: "cond_entry list" where
  "ortho_entries =
     [\<lparr>traindata_list = [[Fin 1, Fin 1, Fin 1], [Fin (- 1), Fin 1, Fin (- 1)],
         [Fin 1, Fin (- 1), Fin (- 1)], [Fin (- 1), Fin (- 1), Fin 1], [Fin 0, Fin 0, Fin 0]],
       coeff = []\<rparr>,
      \<lparr>traindata_list = [[Fin 1, Fin 1, Fin 1], [Fin (- 1), Fin 1, Fin (- 1)],
         [Fin 1, Fin (- 1), Fin (- 1)], [Fin (- 1), Fin (- 1), Fin 1], [Fin 0, Fin 0, Fin 0]],
       coeff = []\<rparr>]"

definition ortho_corrcoef_report :: corr_fn where
  "ortho_corrcoef_report a =
     (if a = ortho_traindata
      then Inr [[Fin 1, Fin 0, Fin 0], [Fin 0, Fin 1, Fin 0], [Fin 0, Fin 0, Fin 1]]
      else ortho_corrcoef a)"

lemma evaluate_for_ortho:
  "(case evaluate_for 1 ortho_svd ortho_corrcoef_report (1 / 50) 1 3 [''p'', ''a'', ''b''] [''p'']
          ortho_entries two_conditions of
      (st, out, p) \<Rightarrow>
        st = \<lparr>root_dict = \<lparr>dt = 1 / 50, rows = 1, cols = 3, conditions = []\<rparr>,
              sysid_set = [0]\<rparr> \<and>
        p = Running \<and>
        PrintCond 0 [(''flaps'', 0)] \<in> set out \<and>
        PrintMax (- 1) ''b'' \<in> set out)"
  by (simp add: evaluate_for_def two_conditions_def ortho_entries_def correlation_report_for_def
      fit_state_for_def ortho_corrcoef_report_def
      iteration_def ortho_corrcoef_def ortho_traindata_def ortho_corr_def solve_def
      ortho_svd_def id2_def array_defs Let_def fsub_def ret_def)

text \<open>
  C3, which the code does not do. However long the script runs, and whether it is still
  running, has raised or has ended, \<^verbatim>\<open>root_dict\<close> is the stub of lines 109 to 114: its
  list of conditions is empty, no operator and no channel name is stored in it, and the
  model has no event that writes a file, as the code has no statement that does. With a
  target to fit and a condition to process, the run never ends normally either.
\<close>

theorem model_record_never_filled:
  "root_dict (fst (evaluate_for n svd corrcoef step n_output n_state train_states output_states
       cond_list conds))
     = \<lparr>dt = step, rows = n_output, cols = n_state, conditions = []\<rparr> \<and>
   (output_states \<noteq> [] \<and> conds \<noteq> [] \<longrightarrow>
      snd (snd (evaluate_for n svd corrcoef step n_output n_state train_states output_states
        cond_list conds)) \<noteq> Ended)"
proof -
  have "conds \<noteq> [] \<Longrightarrow> enumerate 0 conds \<noteq> []" by (cases conds) auto
  then show ?thesis
    by (simp add: evaluate_for_def condition_loop_for_root_dict condition_loop_for_progress)
qed

theorem model_record_never_filled_witness:
  "[''p''] \<noteq> [] \<and> two_conditions \<noteq> [] \<and>
   root_dict (fst (evaluate_for 1 ortho_svd ortho_corrcoef_report (1 / 50) 1 3
       [''p'', ''a'', ''b''] [''p''] ortho_entries two_conditions))
     = \<lparr>dt = 1 / 50, rows = 1, cols = 3, conditions = []\<rparr> \<and>
   snd (snd (evaluate_for 1 ortho_svd ortho_corrcoef_report (1 / 50) 1 3
       [''p'', ''a'', ''b''] [''p''] ortho_entries two_conditions)) \<noteq> Ended \<and>
   sysid_set (fst (evaluate_for 1 ortho_svd ortho_corrcoef_report (1 / 50) 1 3
       [''p'', ''a'', ''b''] [''p''] ortho_entries two_conditions)) = [0] \<and>
   PrintMax (- 1) ''b'' \<in> set (fst (snd (evaluate_for 1 ortho_svd ortho_corrcoef_report (1 / 50) 1 3
       [''p'', ''a'', ''b''] [''p''] ortho_entries two_conditions)))"
  using model_record_never_filled [of 1 ortho_svd ortho_corrcoef_report "1 / 50" 1 3
      "[''p'', ''a'', ''b'']" "[''p'']" ortho_entries two_conditions]
    evaluate_for_ortho
  by (simp add: two_conditions_def case_prod_beta)

section \<open>The second scoring pass: what it ranks by\<close>



text \<open>The loop leaves by an exception or not at all.\<close>

lemma primary_loop_only_raises:
  assumes ret: "primary_loop svd corrcoef train_states traindata i out st = Some y"
  shows "\<exists>e. snd y = Inl e"
proof (rule primary_loop.raw_induct
    [where P = "\<lambda>svd corrcoef train_states traindata i out st y. \<exists>e. snd y = Inl e", OF _ ret],
    goal_cases)
  case (1 loop svd corrcoef train_states traindata i out st y)
  obtain out' r where it: "iteration svd corrcoef train_states traindata i st = (out', r)"
    by (cases "iteration svd corrcoef train_states traindata i st") auto
  show ?case
  proof (cases r)
    case (Inl e)
    then show ?thesis using 1(2) it by auto
  next
    case (Inr v)
    obtain corr st' where "v = (corr, st')" by (cases v) auto
    then have "loop svd corrcoef train_states traindata i (out @ out') st' = Some y"
      using 1(2) it Inr by simp
    then show ?thesis by (rule 1(1))
  qed
qed

lemma fit_state_only_raises:
  assumes "fit_state svd corrcoef train_states traindata s = Some (out, r)"
  shows "\<exists>e. r = Inl e"
proof (cases "list_index train_states s")
  case (Inl e)
  then show ?thesis using assms by (auto simp: fit_state_def)
next
  case i: (Inr i)
  show ?thesis
  proof (cases "py_index traindata (int i)")
    case (Inl e)
    then show ?thesis using assms i by (auto simp: fit_state_def)
  next
    case (Inr signal)
    define l where "l = primary_loop svd corrcoef train_states traindata i
        [PrintVec '''' (map fneg signal)] ({int i}, map fneg signal)"
    have eq: "bind_opt l (\<lambda>corr. Some (second_pass corr train_states i)) = Some (out, r)"
      using assms i Inr by (simp add: fit_state_def Let_def l_def)
    show ?thesis
    proof (cases l)
      case None
      then show ?thesis using eq by simp
    next
      case (Some y)
      then obtain e where e: "snd y = Inl e"
        using primary_loop_only_raises [of svd corrcoef train_states traindata i _ _ y]
        unfolding l_def by blast
      obtain o1 where "y = (o1, Inl e)" using e by (cases y) auto
      then show ?thesis using eq Some by auto
    qed
  qed
qed














end
